theory Spec2Isabelle
  imports Complex_Main "HOL-Library.Char_ord" "HOL-Library.List_Lexorder"
begin

section \<open>Calendar dates\<close>

text \<open>
  A \<^verbatim>\<open>datetime.date\<close> is a triple of year, month and day. Python compares dates as
  the triples \<^verbatim>\<open>(year, month, day)\<close>, lexicographically. The time of day that a pandas
  \<^verbatim>\<open>Timestamp\<close> carries is dropped by \<^verbatim>\<open>.date()\<close> before the program compares or stores
  anything, so a timestamp is modelled by its date.
\<close>

datatype date = Date (year_of: int) (month_of: int) (day_of: int)

instantiation date :: linorder
begin

definition less_eq_date :: "date \<Rightarrow> date \<Rightarrow> bool" where
  "less_eq_date a b =
     (year_of a < year_of b \<or>
      (year_of a = year_of b \<and>
        (month_of a < month_of b \<or> (month_of a = month_of b \<and> day_of a \<le> day_of b))))"

definition less_date :: "date \<Rightarrow> date \<Rightarrow> bool" where
  "less_date a b =
     (year_of a < year_of b \<or>
      (year_of a = year_of b \<and>
        (month_of a < month_of b \<or> (month_of a = month_of b \<and> day_of a < day_of b))))"

instance
proof
  fix x y z :: date
  show "(x < y) = (x \<le> y \<and> \<not> y \<le> x)"
    by (auto simp: less_eq_date_def less_date_def)
  show "x \<le> x"
    by (simp add: less_eq_date_def)
  show "x \<le> y \<Longrightarrow> y \<le> z \<Longrightarrow> x \<le> z"
    by (auto simp: less_eq_date_def)
  show "x \<le> y \<Longrightarrow> y \<le> x \<Longrightarrow> x = y"
    by (cases x; cases y) (auto simp: less_eq_date_def)
  show "x \<le> y \<or> y \<le> x"
    by (auto simp: less_eq_date_def)
qed

end

text \<open>
  \<^verbatim>\<open>datetime._is_leap\<close> and, for the months 1 to 12, \<^verbatim>\<open>datetime._days_in_month\<close>, which is
  also \<^verbatim>\<open>calendar._monthlen\<close>.
\<close>

definition is_leap :: "int \<Rightarrow> bool" where
  "is_leap y = (y mod 4 = 0 \<and> (y mod 100 \<noteq> 0 \<or> y mod 400 = 0))"

definition days_in_month :: "int \<Rightarrow> int \<Rightarrow> int" where
  "days_in_month y m =
     (if m = 2 then (if is_leap y then 29 else 28)
      else if m = 4 \<or> m = 6 \<or> m = 9 \<or> m = 11 then 30
      else 31)"

text \<open>
  A triple is a day of the calendar when its month and day are in range; a
  \<^verbatim>\<open>datetime.date\<close> also has its year between \<^verbatim>\<open>MINYEAR = 1\<close> and \<^verbatim>\<open>MAXYEAR = 9999\<close>.
\<close>

definition cal_date :: "date \<Rightarrow> bool" where
  "cal_date d =
     (1 \<le> month_of d \<and> month_of d \<le> 12 \<and>
      1 \<le> day_of d \<and> day_of d \<le> days_in_month (year_of d) (month_of d))"

definition valid_date :: "date \<Rightarrow> bool" where
  "valid_date d = (cal_date d \<and> 1 \<le> year_of d \<and> year_of d \<le> 9999)"

datatype py_error = ValueError | OverflowError | IllegalMonthError | IndexError

text \<open>\<^verbatim>\<open>datetime(y, m, d).date()\<close>: a \<^verbatim>\<open>ValueError\<close> when the triple is no date.\<close>

definition mk_date :: "int \<Rightarrow> int \<Rightarrow> int \<Rightarrow> py_error + date" where
  "mk_date y m d = (if valid_date (Date y m d) then Inr (Date y m d) else Inl ValueError)"

text \<open>The day after, and \<^verbatim>\<open>d + timedelta(days=1)\<close>, which overflows after 9999-12-31.\<close>

definition next_day :: "date \<Rightarrow> date" where
  "next_day d =
     (if day_of d < days_in_month (year_of d) (month_of d)
        then Date (year_of d) (month_of d) (day_of d + 1)
      else if month_of d < 12 then Date (year_of d) (month_of d + 1) 1
      else Date (year_of d + 1) 1 1)"

definition add_one_day :: "date \<Rightarrow> py_error + date" where
  "add_one_day d = (if year_of (next_day d) > 9999 then Inl OverflowError else Inr (next_day d))"

text \<open>\<^verbatim>\<open>date.toordinal()\<close>: day 1 is 0001-01-01.\<close>

definition days_before_year :: "int \<Rightarrow> int" where
  "days_before_year y = (y - 1) * 365 + (y - 1) div 4 - (y - 1) div 100 + (y - 1) div 400"

definition days_before_month :: "int \<Rightarrow> int \<Rightarrow> int" where
  "days_before_month y m =
     [0, 0, 31, 59, 90, 120, 151, 181, 212, 243, 273, 304, 334] ! nat m
       + (if m > 2 \<and> is_leap y then 1 else 0)"

definition toordinal :: "date \<Rightarrow> int" where
  "toordinal d = days_before_year (year_of d) + days_before_month (year_of d) (month_of d) + day_of d"

section \<open>The task table\<close>

text \<open>
  One row of the \<^verbatim>\<open>Tasks\<close> sheet. A date cell is empty (\<^verbatim>\<open>NaN\<close>, or \<^verbatim>\<open>NaT\<close> once coerced),
  holds something that is no date, or holds a timestamp. \<^verbatim>\<open>Labels\<close> and \<^verbatim>\<open>Bucket Name\<close>
  are a string or \<^verbatim>\<open>NaN\<close> (\<open>None\<close>): \<^verbatim>\<open>read_excel\<close> reads an empty cell as \<^verbatim>\<open>NaN\<close>.
  The table has the six columns the program reads, and a task name is a string, as in the
  specification's task record.
\<close>

datatype date_cell = NaT | Malformed string | Stamp date

record task =
  task_name :: string
  start_date :: date_cell
  due_date :: date_cell
  completed_date :: date_cell
  labels :: "string option"
  bucket_name :: "string option"

text \<open>
  pandas keeps a \<^verbatim>\<open>Timestamp\<close> in nanoseconds since 1970 in 64 bits: every timestamp of
  a table lies between 1677-09-21 and 2262-04-11.
\<close>

definition timestamp_date :: "date \<Rightarrow> bool" where
  "timestamp_date d = (cal_date d \<and> Date 1677 9 21 \<le> d \<and> d \<le> Date 2262 4 11)"

definition cell_ok :: "date_cell \<Rightarrow> bool" where
  "cell_ok c = (case c of Stamp d \<Rightarrow> timestamp_date d | _ \<Rightarrow> True)"

definition task_ok :: "task \<Rightarrow> bool" where
  "task_ok t = (cell_ok (start_date t) \<and> cell_ok (due_date t) \<and> cell_ok (completed_date t))"

definition frame_ok :: "task list \<Rightarrow> bool" where
  "frame_ok tasks = list_all task_ok tasks"

section \<open>Date resolution (main.py, lines 38 to 49)\<close>

text \<open>\<^verbatim>\<open>pd.to_datetime(column, errors="coerce")\<close>, cell by cell.\<close>

definition to_datetime :: "date_cell \<Rightarrow> date_cell" where
  "to_datetime c = (case c of Stamp d \<Rightarrow> Stamp d | _ \<Rightarrow> NaT)"

definition notna :: "date_cell \<Rightarrow> bool" where
  "notna c = (c \<noteq> NaT)"

text \<open>Lines 38 to 40: the three date columns are replaced by their coerced values.\<close>

definition coerce_dates :: "task \<Rightarrow> task" where
  "coerce_dates t =
     t\<lparr>start_date := to_datetime (start_date t),
       due_date := to_datetime (due_date t),
       completed_date := to_datetime (completed_date t)\<rparr>"

text \<open>Line 43: where the completed date is present, the due date becomes the completed date.\<close>

definition override_due :: "task \<Rightarrow> task" where
  "override_due t = (if notna (completed_date t) then t\<lparr>due_date := completed_date t\<rparr> else t)"

text \<open>Line 46: where the start date is missing, the start date becomes the due date.\<close>

definition fill_start :: "task \<Rightarrow> task" where
  "fill_start t = (if \<not> notna (start_date t) then t\<lparr>start_date := due_date t\<rparr> else t)"

text \<open>
  The three assignments write into the caller's table: each acts on a whole column, row by
  row, so the table after line 46 is the old one with every row rewritten.
\<close>

definition resolve_row :: "task \<Rightarrow> task" where
  "resolve_row t = fill_start (override_due (coerce_dates t))"

definition resolve_frame :: "task list \<Rightarrow> task list" where
  "resolve_frame tasks = map resolve_row tasks"

text \<open>Line 49: \<^verbatim>\<open>dropna\<close> builds a new table, bound to the local name only.\<close>

definition dropna :: "task list \<Rightarrow> task list" where
  "dropna tasks = filter (\<lambda>t. notna (start_date t) \<and> notna (due_date t)) tasks"

section \<open>The day index (main.py, lines 35 and 51 to 72)\<close>

type_synonym day_index = "date \<Rightarrow> string list option"

text \<open>\<^verbatim>\<open>tasks_by_day.get(d, [])\<close>.\<close>

definition day_tasks :: "day_index \<Rightarrow> date \<Rightarrow> string list" where
  "day_tasks idx d = (case idx d of None \<Rightarrow> [] | Some ns \<Rightarrow> ns)"

text \<open>Lines 66 to 71: the body of the loop over the days of a range.\<close>

definition add_task :: "day_index \<Rightarrow> date \<Rightarrow> string \<Rightarrow> day_index" where
  "add_task idx d n =
     (let idx1 = (if idx d = None then idx(d \<mapsto> []) else idx)
      in if n \<notin> set (day_tasks idx1 d) then idx1(d \<mapsto> day_tasks idx1 d @ [n]) else idx1)"

text \<open>Lines 65 to 72: the loop, from \<open>cur\<close> to \<open>end_date\<close>.\<close>

function expand_range :: "date \<Rightarrow> date \<Rightarrow> string \<Rightarrow> day_index \<Rightarrow> py_error + day_index" where
  "expand_range cur end_date n idx =
     (if cur \<le> end_date then
        (case add_one_day cur of
           Inl e \<Rightarrow> Inl e
         | Inr nxt \<Rightarrow> expand_range nxt end_date n (add_task idx cur n))
      else Inr idx)"
  by pat_completeness auto
termination
proof (relation "measures [\<lambda>(c, e, n, i). nat (year_of e + 1 - year_of c),
                          \<lambda>(c, e, n, i). nat (12 - month_of c),
                          \<lambda>(c, e, n, i). nat (31 - day_of c)]")
  show "wf (measures [\<lambda>(c, e, n, i). nat (year_of e + 1 - year_of c),
                      \<lambda>(c, e, n, i). nat (12 - month_of c),
                      \<lambda>(c, e, n, i). nat (31 - day_of c)])"
    by simp
next
  fix cur end_date :: date and n :: string and idx :: day_index and nxt :: date
  assume le: "cur \<le> end_date" and nx: "add_one_day cur = Inr nxt"
  have nxt: "nxt = next_day cur"
    using nx by (simp add: add_one_day_def split: if_splits)
  have dim: "days_in_month (year_of cur) (month_of cur) \<le> 31"
    by (simp add: days_in_month_def)
  have yr: "year_of cur \<le> year_of end_date"
    using le by (auto simp: less_eq_date_def)
  show "((nxt, end_date, n, add_task idx cur n), (cur, end_date, n, idx))
        \<in> measures [\<lambda>(c, e, n, i). nat (year_of e + 1 - year_of c),
                     \<lambda>(c, e, n, i). nat (12 - month_of c),
                     \<lambda>(c, e, n, i). nat (31 - day_of c)]"
    using dim yr by (auto simp: nxt next_day_def)
qed

text \<open>
  Lines 52 to 72: one row of the table after \<^verbatim>\<open>dropna\<close>. \<^verbatim>\<open>.date()\<close> of a missing
  timestamp raises; line 49 has dropped the rows that have one.
\<close>

definition index_task :: "int \<Rightarrow> day_index \<Rightarrow> task \<Rightarrow> py_error + day_index" where
  "index_task yr idx t =
     (case (start_date t, due_date t) of
        (Stamp start, Stamp due) \<Rightarrow>
          if year_of start > yr \<or> year_of due < yr then Inr idx
          else (case mk_date yr 1 1 of
                  Inl e \<Rightarrow> Inl e
                | Inr jan1 \<Rightarrow>
                   (case mk_date yr 12 31 of
                      Inl e \<Rightarrow> Inl e
                    | Inr dec31 \<Rightarrow> expand_range (max start jan1) (min due dec31) (task_name t) idx))
      | _ \<Rightarrow> Inl ValueError)"

text \<open>Lines 51 to 72: the loop over the rows.\<close>

fun index_rows :: "int \<Rightarrow> day_index \<Rightarrow> task list \<Rightarrow> py_error + day_index" where
  "index_rows yr idx [] = Inr idx"
| "index_rows yr idx (t # ts) =
     (case index_task yr idx t of Inl e \<Rightarrow> Inl e | Inr idx' \<Rightarrow> index_rows yr idx' ts)"

text \<open>Lines 35 to 72: from the caller's table to the index.\<close>

definition build_day_index :: "task list \<Rightarrow> int \<Rightarrow> py_error + day_index" where
  "build_day_index tasks yr = index_rows yr Map.empty (dropna (resolve_frame tasks))"

section \<open>Strings\<close>

text \<open>\<^verbatim>\<open>str(n)\<close> for an integer, as the f-strings print the year and the day number.\<close>

definition digit_char :: "nat \<Rightarrow> char" where
  "digit_char n = ''0123456789abcdef'' ! n"

function str_nat :: "nat \<Rightarrow> string" where
  "str_nat n = (if n < 10 then [digit_char n] else str_nat (n div 10) @ [digit_char (n mod 10)])"
  by pat_completeness auto
termination
  by (relation "measure id") auto

definition str_int :: "int \<Rightarrow> string" where
  "str_int i = (if i < 0 then CHR ''-'' # str_nat (nat (- i)) else str_nat (nat i))"

text \<open>
  \<^verbatim>\<open>s.replace(old, new)\<close> where \<open>old\<close> is one character: every occurrence is replaced. The
  six characters the program replaces are ASCII, so replacing them byte by byte in UTF-8
  text is replacing them character by character.
\<close>

definition replace :: "char \<Rightarrow> string \<Rightarrow> string \<Rightarrow> string" where
  "replace old new s = concat (map (\<lambda>c. if c = old then new else [c]) s)"

section \<open>The month grid (the calendar module)\<close>

text \<open>\<^verbatim>\<open>calendar.month_name[i]\<close>: a list of thirteen entries, the first one empty.\<close>

definition month_names :: "string list" where
  "month_names =
     ['''', ''January'', ''February'', ''March'', ''April'', ''May'', ''June'', ''July'',
      ''August'', ''September'', ''October'', ''November'', ''December'']"

definition month_name :: "int \<Rightarrow> py_error + string" where
  "month_name i =
     (let j = (if i < 0 then i + 13 else i)
      in if 0 \<le> j \<and> j < 13 then Inr (month_names ! nat j) else Inl IndexError)"

text \<open>
  \<^verbatim>\<open>calendar.weekday\<close> (Monday is 0), \<^verbatim>\<open>calendar.monthrange\<close>, and the iterator
  \<^verbatim>\<open>Calendar(firstweekday=calendar.SUNDAY).itermonthdays3\<close>, with \<^verbatim>\<open>SUNDAY = 6\<close>.
\<close>

definition weekday :: "int \<Rightarrow> int \<Rightarrow> int \<Rightarrow> py_error + int" where
  "weekday y m d =
     (let y' = (if \<not> (1 \<le> y \<and> y \<le> 9999) then 2000 + y mod 400 else y)
      in case mk_date y' m d of
           Inl e \<Rightarrow> Inl e
         | Inr dt \<Rightarrow> Inr ((toordinal dt + 6) mod 7))"

definition monthrange :: "int \<Rightarrow> int \<Rightarrow> py_error + int \<times> int" where
  "monthrange y m =
     (if \<not> (1 \<le> m \<and> m \<le> 12) then Inl IllegalMonthError
      else case weekday y m 1 of
             Inl e \<Rightarrow> Inl e
           | Inr day1 \<Rightarrow> Inr (day1, days_in_month y m))"

definition prevmonth :: "int \<Rightarrow> int \<Rightarrow> int \<times> int" where
  "prevmonth y m = (if m = 1 then (y - 1, 12) else (y, m - 1))"

definition nextmonth :: "int \<Rightarrow> int \<Rightarrow> int \<times> int" where
  "nextmonth y m = (if m = 12 then (y + 1, 1) else (y, m + 1))"

definition itermonthdays3 :: "int \<Rightarrow> int \<Rightarrow> py_error + (int \<times> int \<times> int) list" where
  "itermonthdays3 y m =
     (case monthrange y m of
        Inl e \<Rightarrow> Inl e
      | Inr (day1, ndays) \<Rightarrow>
          (let days_before = (day1 - 6) mod 7;
               days_after = (6 - day1 - ndays) mod 7;
               (py, pm) = prevmonth y m;
               end_day = days_in_month py pm + 1;
               (ny, nm) = nextmonth y m
           in Inr (map (\<lambda>d. (py, pm, d)) [end_day - days_before .. end_day - 1] @
                   map (\<lambda>d. (y, m, d)) [1 .. ndays] @
                   map (\<lambda>d. (ny, nm, d)) [1 .. days_after])))"

text \<open>\<^verbatim>\<open>itermonthdates\<close>: each triple becomes a \<^verbatim>\<open>datetime.date\<close>, or the call raises.\<close>

fun itermonthdates :: "(int \<times> int \<times> int) list \<Rightarrow> py_error + date list" where
  "itermonthdates [] = Inr []"
| "itermonthdates ((y, m, d) # rest) =
     (case mk_date y m d of
        Inl e \<Rightarrow> Inl e
      | Inr dt \<Rightarrow> (case itermonthdates rest of Inl e \<Rightarrow> Inl e | Inr dts \<Rightarrow> Inr (dt # dts)))"

text \<open>\<^verbatim>\<open>[dates[i:i+7] for i in range(0, len(dates), 7)]\<close>.\<close>

function weeks_of :: "date list \<Rightarrow> date list list" where
  "weeks_of dates = (if dates = [] then [] else take 7 dates # weeks_of (drop 7 dates))"
  by pat_completeness auto
termination
  by (relation "measure length") auto

definition monthdatescalendar :: "int \<Rightarrow> int \<Rightarrow> py_error + date list list" where
  "monthdatescalendar y m =
     (case itermonthdays3 y m of
        Inl e \<Rightarrow> Inl e
      | Inr triples \<Rightarrow>
          (case itermonthdates triples of Inl e \<Rightarrow> Inl e | Inr dates \<Rightarrow> Inr (weeks_of dates)))"

section \<open>Rendering (main.py, lines 95 to 220)\<close>

text \<open>
  The parameter \<open>month_num\<close> is the month after lines 78 to 93 have turned a month name or
  a numeric string into a number: \<open>None\<close> for the whole year. \<open>rows\<close> is the local table,
  after line 49; \<open>task_colors\<close> is the dictionary from task names to color codes.
\<close>

text \<open>Lines 175 to 177.\<close>

definition day_class :: "int option \<Rightarrow> date \<Rightarrow> string" where
  "day_class month_num day_date =
     (let day_class = ''day''
      in if Some (month_of day_date) \<noteq> month_num then day_class @ '' other-month''
         else day_class)"

text \<open>
  Lines 190 and 191: the \<^verbatim>\<open>Labels\<close> cells of the rows of that name; the empty string when
  there is no such row or every cell is \<^verbatim>\<open>NaN\<close>, else the first cell, which may itself be
  \<^verbatim>\<open>NaN\<close> (\<open>None\<close>).
\<close>

definition lookup_labels :: "task list \<Rightarrow> string \<Rightarrow> string option" where
  "lookup_labels rows n =
     (case map labels (filter (\<lambda>t. task_name t = n) rows) of
        [] \<Rightarrow> Some ''''
      | l # ls \<Rightarrow> if list_all (\<lambda>x. x = None) (l # ls) then Some '''' else l)"

text \<open>
  Line 192: a string is true when it is not empty, and \<^verbatim>\<open>NaN\<close>, a float that is not zero,
  is true; an f-string prints \<^verbatim>\<open>NaN\<close> as \<^verbatim>\<open>nan\<close>.
\<close>

definition truthy :: "string option \<Rightarrow> bool" where
  "truthy l = (case l of None \<Rightarrow> True | Some s \<Rightarrow> s \<noteq> [])"

definition fmt_label :: "string option \<Rightarrow> string" where
  "fmt_label l = (case l of None \<Rightarrow> ''nan'' | Some s \<Rightarrow> s)"

text \<open>Lines 189 to 194.\<close>

definition labeled_task_name :: "task list \<Rightarrow> bool \<Rightarrow> string \<Rightarrow> string" where
  "labeled_task_name rows prefix_label n =
     (if prefix_label then
        (let l = lookup_labels rows n in if truthy l then fmt_label l @ n else n)
      else n)"

text \<open>Lines 196 to 203.\<close>

definition escape_task_name :: "string \<Rightarrow> string" where
  \<open>escape_task_name s =
     replace (CHR 0x27) ''&#39;''
       (replace (CHR 0x22) ''&quot;''
         (replace CHR ''>'' ''&gt;''
           (replace CHR ''<'' ''&lt;''
             (replace CHR ''&'' ''&amp;''
               (replace CHR '';'' '''' s)))))\<close>

text \<open>Lines 204 to 207.\<close>

definition task_span :: "string \<Rightarrow> string \<Rightarrow> string" where
  \<open>task_span escaped_task_name bg_color =
     ''        <span class="task" title="'' @ escaped_task_name @
     ''" style="background-color: '' @ bg_color @ '';">'' @ escaped_task_name @ ''</span>''\<close>

text \<open>Lines 185 to 207: one task of a day; line 187 is the lookup of its color.\<close>

definition render_task :: "task list \<Rightarrow> (string \<Rightarrow> string option) \<Rightarrow> bool \<Rightarrow> string \<Rightarrow> string" where
  "render_task rows task_colors prefix_label n =
     (let bg_color = (case task_colors n of None \<Rightarrow> ''#f0f0f0'' | Some c \<Rightarrow> c)
      in task_span (escape_task_name (labeled_task_name rows prefix_label n)) bg_color)"

text \<open>Lines 174 to 210: one day cell, as the strings appended to \<^verbatim>\<open>html_parts\<close>.\<close>

definition render_day ::
  "day_index \<Rightarrow> task list \<Rightarrow> (string \<Rightarrow> string option) \<Rightarrow> bool \<Rightarrow> int option \<Rightarrow> date \<Rightarrow> string list"
where
  \<open>render_day tasks_by_day rows task_colors prefix_label month_num day_date =
     [''    <div class="'' @ day_class month_num day_date @ ''">'',
      ''      <div class="day-number">'' @ str_int (day_of day_date) @ ''</div>'',
      ''      <div class="tasks">''] @
     map (render_task rows task_colors prefix_label) (day_tasks tasks_by_day day_date) @
     [''      </div>'', ''    </div>'']\<close>

text \<open>Lines 161 to 213: one month block.\<close>

definition render_month ::
  "day_index \<Rightarrow> task list \<Rightarrow> (string \<Rightarrow> string option) \<Rightarrow> bool \<Rightarrow> int \<Rightarrow> int option \<Rightarrow> int
     \<Rightarrow> py_error + string list"
where
  \<open>render_month tasks_by_day rows task_colors prefix_label year month_num current_month =
     (case month_name current_month of
        Inl e \<Rightarrow> Inl e
      | Inr name \<Rightarrow>
         (case monthdatescalendar year current_month of
            Inl e \<Rightarrow> Inl e
          | Inr month_weeks \<Rightarrow>
              Inr ([''<div class="month">'',
                    ''  <div class="month-title">'' @ name @ '' '' @ str_int year @ ''</div>'',
                    ''  <div class="calendar-grid">''] @
                   map (\<lambda>day_abbr. ''    <div class="day-header">'' @ day_abbr @ ''</div>'')
                     [''Sun'', ''Mon'', ''Tue'', ''Wed'', ''Thu'', ''Fri'', ''Sat''] @
                   concat (map (\<lambda>week.
                      concat (map (render_day tasks_by_day rows task_colors prefix_label month_num)
                        week)) month_weeks) @
                   [''  </div>'', ''</div>''])))\<close>

text \<open>Lines 160 to 213: the loop over \<^verbatim>\<open>month_range\<close>.\<close>

fun render_months ::
  "day_index \<Rightarrow> task list \<Rightarrow> (string \<Rightarrow> string option) \<Rightarrow> bool \<Rightarrow> int \<Rightarrow> int option \<Rightarrow> int list
     \<Rightarrow> py_error + string list"
where
  "render_months tasks_by_day rows task_colors prefix_label year month_num [] = Inr []"
| "render_months tasks_by_day rows task_colors prefix_label year month_num (m # ms) =
     (case render_month tasks_by_day rows task_colors prefix_label year month_num m of
        Inl e \<Rightarrow> Inl e
      | Inr parts \<Rightarrow>
         (case render_months tasks_by_day rows task_colors prefix_label year month_num ms of
            Inl e \<Rightarrow> Inl e
          | Inr rest \<Rightarrow> Inr (parts @ rest)))"

text \<open>Lines 104 to 153: the first element of \<^verbatim>\<open>html_parts\<close>; lines 215 to 219: the last.\<close>

definition html_head :: "string \<Rightarrow> int \<Rightarrow> string \<Rightarrow> string \<Rightarrow> int option \<Rightarrow> string" where
  \<open>html_head wrapping year grid_columns title_text month_num =
     ''<!DOCTYPE html>\<newline>'' @
     ''<html lang="en">\<newline>'' @
     ''<head>\<newline>'' @
     ''    <meta charset="UTF-8">\<newline>'' @
     ''    <meta name="viewport" content="width=device-width, initial-scale=1.0">\<newline>'' @
     ''    <title>Planner Calendar - '' @
     str_int year @
     ''</title>\<newline>'' @
     ''    <style>\<newline>'' @
     ''        body { font-family: sans-serif; font-size: 8px; }\<newline>'' @
     ''        .year-grid { display: grid; grid-template-columns: '' @
     grid_columns @
     ''; gap: 20px; }\<newline>'' @
     ''        .month { border: 1px solid #ccc; padding: 5px; }\<newline>'' @
     ''        .month-title { text-align: center; font-weight: bold; font-size: 12px; margin-bottom: 5px; }\<newline>'' @
     ''        .calendar-grid { display: grid; grid-template-columns: repeat(7, 1fr); border-collapse: collapse; \<newline>'' @
     ''        table-layout: fixed; width: 100%; }\<newline>'' @
     ''        .day-header { text-align: center; font-weight: bold; background-color: #f0f0f0; font-size: 9px; \<newline>'' @
     ''        padding: 2px; border: 1px solid #ddd; }\<newline>'' @
     ''        .day { border: 1px solid #ddd; vertical-align: top; height: 70px; /* Adjust as needed */ \<newline>'' @
     ''        padding: 2px; overflow: hidden; position: relative; }\<newline>'' @
     ''        .day.other-month { background-color: #f9f9f9; color: #aaa; }\<newline>'' @
     ''        .day-number { position: absolute; top: 1px; left: 1px; font-weight: bold; font-size: 9px; \<newline>'' @
     ''        color: #333; }\<newline>'' @
     ''        .tasks { margin-top: 12px; /* Space below day number */ line-height: 1.1; }\<newline>'' @
     ''        .task { display: block; white-space: '' @
     wrapping @
     ''; overflow: hidden; text-overflow: ellipsis; \<newline>'' @
     ''        margin-bottom: 1px; padding: 0 1px; border-radius: 2px; border: 1px solid #ccc; color: #000; \<newline>'' @
     ''        /* Ensure text is black */}\<newline>'' @
     ''        /* Single month view */\<newline>'' @
     ''        .single-month .day { height: 100px; }\<newline>'' @
     ''        .single-month .day-number { font-size: 12px; }\<newline>'' @
     ''        .single-month .day-header { font-size: 12px; }\<newline>'' @
     ''        .single-month .task { font-size: 9px; }\<newline>'' @
     ''        /* Print specific styles */\<newline>'' @
     ''        @media print {\<newline>'' @
     ''            @page { size: 17in 11in landscape; margin: 0.5in; } /* 11x17 Landscape */\<newline>'' @
     ''            body { font-size: 7pt; -webkit-print-color-adjust: exact; print-color-adjust: exact; }\<newline>'' @
     ''            .year-grid { gap: 15px; }\<newline>'' @
     ''            .month { page-break-inside: avoid; border: 1px solid #aaa; }\<newline>'' @
     ''            .day { height: 65px; border: 1px solid #ccc; }\<newline>'' @
     ''            .day-header { font-size: 8pt; padding: 1px; }\<newline>'' @
     ''            .day-number { font-size: 8pt; }\<newline>'' @
     ''            .task { border: 1px solid #b0dde4; font-size: 5pt;}\<newline>'' @
     ''            /* Hide non-essential elements for print */\<newline>'' @
     ''            /* Add any elements here you want to hide during printing */\<newline>'' @
     ''        }\<newline>'' @
     ''    </style>\<newline>'' @
     ''</head>\<newline>'' @
     ''<body>\<newline>'' @
     ''    <h1 style="text-align: center;">'' @
     title_text @
     ''</h1>\<newline>'' @
     ''    <div class="year-grid'' @
     (if month_num \<noteq> None then '' single-month'' else []) @
     ''">\<newline>''\<close>

definition html_foot :: string where
  \<open>html_foot =
     ''\<newline>'' @
     ''    </div> <!-- close year-grid -->\<newline>'' @
     ''</body>\<newline>'' @
     ''</html>\<newline>''\<close>

text \<open>
  \<^verbatim>\<open>generate_calendar_html\<close>. The caller's table is rewritten in place by lines 38 to 46
  before anything can raise, so the function gives back the caller's table as the call
  leaves it, and the document or the exception.
\<close>

definition generate_calendar_html ::
  "task list \<Rightarrow> bool \<Rightarrow> int \<Rightarrow> (string \<Rightarrow> string option) \<Rightarrow> bool \<Rightarrow> int option
     \<Rightarrow> task list \<times> (py_error + string)"
where
  "generate_calendar_html tasks_df no_wrap_text year task_colors prefix_label month_num =
     (let wrapping = (if no_wrap_text then ''nowrap'' else ''wrap'');
          caller_df = resolve_frame tasks_df;
          rows = dropna caller_df
      in (caller_df,
          case build_day_index tasks_df year of
            Inl e \<Rightarrow> Inl e
          | Inr tasks_by_day \<Rightarrow>
             (case (case month_num of
                      None \<Rightarrow> Inr (''Yearly Planner Calendar - '' @ str_int year, ''repeat(3, 1fr)'')
                    | Some m \<Rightarrow>
                        (case month_name m of
                           Inl e \<Rightarrow> Inl e
                         | Inr name \<Rightarrow> Inr (name @ '' '' @ str_int year @ '' Calendar'', ''1fr''))) of
                Inl e \<Rightarrow> Inl e
              | Inr (title_text, grid_columns) \<Rightarrow>
                 (case render_months tasks_by_day rows task_colors prefix_label year month_num
                         (case month_num of None \<Rightarrow> [1 .. 12] | Some m \<Rightarrow> [m]) of
                    Inl e \<Rightarrow> Inl e
                  | Inr parts \<Rightarrow>
                      Inr (concat
                        ([html_head wrapping year grid_columns title_text month_num] @ parts @
                         [html_foot]))))))"

section \<open>Colors (main.py, lines 328 to 381; gui.py, lines 376 to 429)\<close>

text \<open>
  Python floats are modelled by real numbers: the hue, the channels and their products are
  computed exactly. \<open>md5\<close> stands for \<^verbatim>\<open>int(hashlib.md5(s.encode()).hexdigest(), 16)\<close>.
\<close>

definition HUE_STEP :: int where
  "HUE_STEP = 29"

text \<open>\<^verbatim>\<open>Series.unique()\<close> keeps the first occurrence of every value, in order.\<close>

definition unique :: "string list \<Rightarrow> string list" where
  "unique xs = rev (remdups (rev xs))"

text \<open>Line 328. Python orders strings by code point, which is the order of their bytes in UTF-8.\<close>

definition unique_tasks :: "task list \<Rightarrow> string list" where
  "unique_tasks tasks_df = sort (unique (map task_name tasks_df))"

definition matching_rows :: "task list \<Rightarrow> string \<Rightarrow> task list" where
  "matching_rows tasks_df name = filter (\<lambda>t. task_name t = name) tasks_df"

text \<open>
  Lines 338 to 351 for the column \<^verbatim>\<open>Labels\<close>, lines 354 to 367 for \<^verbatim>\<open>Bucket Name\<close>: the
  two blocks differ in the column only.
\<close>

definition group_hue ::
  "(string \<Rightarrow> nat) \<Rightarrow> bool \<Rightarrow> (task \<Rightarrow> string option) \<Rightarrow> task list \<Rightarrow> nat \<Rightarrow> string
     \<Rightarrow> real option \<Rightarrow> real option"
where
  "group_hue md5 alternate_colors column tasks_df task_index name hue =
     (case matching_rows tasks_df name of
        [] \<Rightarrow> hue
      | row # _ \<Rightarrow>
         (case column row of
            None \<Rightarrow> hue
          | Some v \<Rightarrow>
              if alternate_colors
                then Some (real_of_int ((HUE_STEP * int task_index) mod 360) / 360)
                else Some (real (md5 v mod 360) / 360)))"

text \<open>Lines 336 to 376: the hue of one task name.\<close>

definition task_hue ::
  "(string \<Rightarrow> nat) \<Rightarrow> bool \<Rightarrow> bool \<Rightarrow> bool \<Rightarrow> task list \<Rightarrow> nat \<Rightarrow> string \<Rightarrow> real"
where
  "task_hue md5 color_by_label color_by_bucket alternate_colors tasks_df task_index name =
     (let hue = None;
          hue = (if color_by_label
                   then group_hue md5 alternate_colors labels tasks_df task_index name hue
                 else hue);
          hue = (if color_by_bucket
                   then group_hue md5 alternate_colors bucket_name tasks_df task_index name hue
                 else hue)
      in case hue of None \<Rightarrow> real (md5 name mod 360) / 360 | Some h \<Rightarrow> h)"

text \<open>\<^verbatim>\<open>colorsys._v\<close> and \<^verbatim>\<open>colorsys.hls_to_rgb\<close>; \<^verbatim>\<open>hue % 1.0\<close> is the fractional part.\<close>

definition v_channel :: "real \<Rightarrow> real \<Rightarrow> real \<Rightarrow> real" where
  "v_channel m1 m2 hue0 =
     (let hue = frac hue0
      in if hue < 1 / 6 then m1 + (m2 - m1) * hue * 6
         else if hue < 1 / 2 then m2
         else if hue < 2 / 3 then m1 + (m2 - m1) * (2 / 3 - hue) * 6
         else m1)"

definition hls_to_rgb :: "real \<Rightarrow> real \<Rightarrow> real \<Rightarrow> real \<times> real \<times> real" where
  "hls_to_rgb h l s =
     (if s = 0 then (l, l, l)
      else
        (let m2 = (if l \<le> 1 / 2 then l * (1 + s) else l + s - l * s);
             m1 = 2 * l - m2
         in (v_channel m1 m2 (h + 1 / 3), v_channel m1 m2 h, v_channel m1 m2 (h - 1 / 3))))"

text \<open>\<^verbatim>\<open>int(x)\<close> of a float truncates toward zero.\<close>

definition py_int :: "real \<Rightarrow> int" where
  "py_int x = (if 0 \<le> x then \<lfloor>x\<rfloor> else \<lceil>x\<rceil>)"

text \<open>
  The format \<^verbatim>\<open>:02x\<close>: lower-case hexadecimal, padded with zeros to two characters, the
  sign of a negative number counted.
\<close>

function hex_nat :: "nat \<Rightarrow> string" where
  "hex_nat n = (if n < 16 then [digit_char n] else hex_nat (n div 16) @ [digit_char (n mod 16)])"
  by pat_completeness auto
termination
  by (relation "measure id") auto

definition zero_pad :: "nat \<Rightarrow> string \<Rightarrow> string" where
  "zero_pad w s = replicate (w - length s) CHR ''0'' @ s"

definition fmt_02x :: "int \<Rightarrow> string" where
  "fmt_02x v =
     (if v < 0 then CHR ''-'' # zero_pad 1 (hex_nat (nat (- v))) else zero_pad 2 (hex_nat (nat v)))"

text \<open>Line 380.\<close>

definition hex_color :: "real \<times> real \<times> real \<Rightarrow> string" where
  "hex_color rgb =
     (case rgb of (r, g, b) \<Rightarrow>
        ''#'' @ fmt_02x (py_int (r * 255)) @ fmt_02x (py_int (g * 255)) @ fmt_02x (py_int (b * 255)))"

text \<open>Lines 335 to 381: the loop over the sorted names, filling \<^verbatim>\<open>task_colors\<close>.\<close>

definition assign_colors ::
  "(string \<Rightarrow> nat) \<Rightarrow> bool \<Rightarrow> bool \<Rightarrow> bool \<Rightarrow> real \<Rightarrow> real \<Rightarrow> task list \<Rightarrow> string \<Rightarrow> string option"
where
  "assign_colors md5 color_by_label color_by_bucket alternate_colors lightness saturation tasks_df =
     fold (\<lambda>(task_index, name) task_colors.
             task_colors(name \<mapsto>
               hex_color (hls_to_rgb
                 (task_hue md5 color_by_label color_by_bucket alternate_colors tasks_df
                    task_index name)
                 lightness saturation)))
       (enumerate 0 (unique_tasks tasks_df)) Map.empty"

text \<open>
  Lines 330 and 331 of main.py clamp the two settings to the unit interval; gui.py refuses
  values outside it before it runs the same loop.
\<close>

definition main_task_colors ::
  "(string \<Rightarrow> nat) \<Rightarrow> bool \<Rightarrow> bool \<Rightarrow> bool \<Rightarrow> real \<Rightarrow> real \<Rightarrow> task list \<Rightarrow> string \<Rightarrow> string option"
where
  "main_task_colors md5 color_by_label color_by_bucket alternate_colors color_lightness
       color_saturation tasks_df =
     (let saturation = max 0 (min 1 color_saturation);
          lightness = max 0 (min 1 color_lightness)
      in assign_colors md5 color_by_label color_by_bucket alternate_colors lightness saturation
           tasks_df)"

section \<open>Notions used to state the properties\<close>

text \<open>The days of the calendar from \<open>a\<close> to \<open>b\<close>, both included, in order.\<close>

function date_range :: "date \<Rightarrow> date \<Rightarrow> date list" where
  "date_range a b = (if a \<le> b then a # date_range (next_day a) b else [])"
  by pat_completeness auto
termination
proof (relation "measures [\<lambda>(c, e). nat (year_of e + 1 - year_of c),
                          \<lambda>(c, e). nat (12 - month_of c),
                          \<lambda>(c, e). nat (31 - day_of c)]")
  show "wf (measures [\<lambda>(c, e). nat (year_of e + 1 - year_of c),
                      \<lambda>(c, e). nat (12 - month_of c),
                      \<lambda>(c, e). nat (31 - day_of c)])"
    by simp
next
  fix a b :: date
  assume le: "a \<le> b"
  have dim: "days_in_month (year_of a) (month_of a) \<le> 31"
    by (simp add: days_in_month_def)
  have yr: "year_of a \<le> year_of b"
    using le by (auto simp: less_eq_date_def)
  show "((next_day a, b), (a, b))
        \<in> measures [\<lambda>(c, e). nat (year_of e + 1 - year_of c),
                     \<lambda>(c, e). nat (12 - month_of c),
                     \<lambda>(c, e). nat (31 - day_of c)]"
    using dim yr by (auto simp: next_day_def)
qed

text \<open>What lines 66 to 71 make of the names of one day.\<close>

definition append_new :: "string \<Rightarrow> string list \<Rightarrow> string list" where
  "append_new n ns = (if n \<in> set ns then ns else ns @ [n])"

text \<open>
  The effective range of a row of the caller's table: the start and due dates that the loop
  reads at lines 52 and 53, when the row is still there after line 49.
\<close>

definition effective_range :: "task \<Rightarrow> (date \<times> date) option" where
  "effective_range t =
     (case (start_date (resolve_row t), due_date (resolve_row t)) of
        (Stamp s, Stamp e) \<Rightarrow> Some (s, e)
      | _ \<Rightarrow> None)"

text \<open>
  The days of a range from \<open>s\<close> to \<open>e\<close> clipped to the target year, from the later of
  \<open>s\<close> and 1 January to the earlier of \<open>e\<close> and 31 December, both included; the days of
  a record of the caller's table.
\<close>

definition clipped_days :: "int \<Rightarrow> date \<Rightarrow> date \<Rightarrow> date set" where
  "clipped_days yr s e = {d. cal_date d \<and> max s (Date yr 1 1) \<le> d \<and> d \<le> min e (Date yr 12 31)}"

definition task_days :: "int \<Rightarrow> task \<Rightarrow> date set" where
  "task_days yr t = (case effective_range t of None \<Rightarrow> {} | Some (s, e) \<Rightarrow> clipped_days yr s e)"

text \<open>A row as the loop meets it, and the days it adds to the index.\<close>

definition resolved_ok :: "task \<Rightarrow> bool" where
  "resolved_ok t = (\<exists>s e. start_date t = Stamp s \<and> due_date t = Stamp e \<and>
      timestamp_date s \<and> timestamp_date e)"

definition row_days :: "int \<Rightarrow> task \<Rightarrow> date set" where
  "row_days yr t = (case (start_date t, due_date t) of
      (Stamp s, Stamp e) \<Rightarrow> clipped_days yr s e | _ \<Rightarrow> {})"

text \<open>
  The resolution rules as the specification words them: a completed date, when present,
  overrides the due date; a start date that is absent or invalid is set to the (possibly
  overridden) due date; a record with a date still absent is left out.
\<close>

definition spec_present :: "date_cell \<Rightarrow> date option" where
  "spec_present c = (case c of Stamp d \<Rightarrow> Some d | _ \<Rightarrow> None)"

definition spec_effective_due :: "task \<Rightarrow> date option" where
  "spec_effective_due t =
     (case spec_present (completed_date t) of
        Some c \<Rightarrow> Some c
      | None \<Rightarrow> spec_present (due_date t))"

definition spec_effective_start :: "task \<Rightarrow> date option" where
  "spec_effective_start t =
     (case spec_present (start_date t) of
        Some s \<Rightarrow> Some s
      | None \<Rightarrow> spec_effective_due t)"

definition spec_resolved_range :: "task \<Rightarrow> (date \<times> date) option" where
  "spec_resolved_range t =
     (case (spec_effective_start t, spec_effective_due t) of
        (Some s, Some e) \<Rightarrow> Some (s, e)
      | _ \<Rightarrow> None)"

text \<open>The record \<open>t\<close> alone bears its name in the table.\<close>

definition only_record :: "task list \<Rightarrow> task \<Rightarrow> bool" where
  "only_record tasks t = list_all (\<lambda>u. task_name u = task_name t \<longrightarrow> u = t) tasks"








section \<open>Example tables\<close>

definition mk_task :: "string \<Rightarrow> date_cell \<Rightarrow> date_cell \<Rightarrow> date_cell \<Rightarrow> string option \<Rightarrow> string option \<Rightarrow> task" where
  "mk_task n s d c l b =
     \<lparr>task_name = n, start_date = s, due_date = d, completed_date = c, labels = l, bucket_name = b\<rparr>"

definition example_tasks :: "task list" where
  "example_tasks =
     [mk_task ''Design'' (Stamp (Date 2023 12 30)) (Stamp (Date 2024 1 2)) NaT (Some ''Eng'') None,
      mk_task ''Review'' NaT (Stamp (Date 2024 2 28)) (Stamp (Date 2024 3 1)) (Some ''Eng'') None,
      mk_task ''Ship'' (Stamp (Date 2024 2 27)) (Stamp (Date 2024 3 1)) (Malformed ''soon'') None None,
      mk_task ''Idea'' (Malformed ''n/a'') NaT NaT None None,
      mk_task ''Plan'' (Stamp (Date 2024 5 1)) (Malformed ''tbd'') NaT None None]"

text \<open>Two records of one name, the first without a label.\<close>

definition label_bug_tasks :: "task list" where
  "label_bug_tasks =
     [mk_task ''Audit'' (Stamp (Date 2024 1 8)) (Stamp (Date 2024 1 8)) NaT None None,
      mk_task ''Audit'' (Stamp (Date 2024 1 9)) (Stamp (Date 2024 1 9)) NaT (Some ''Ops '') None]"

section \<open>Facts about the calendar\<close>

declare expand_range.simps [simp del]

lemma dim_bounds: "28 \<le> days_in_month y m" "days_in_month y m \<le> 31"
  by (simp_all add: days_in_month_def)

lemma cal_next_day: "cal_date d \<Longrightarrow> cal_date (next_day d)"
  using dim_bounds [of "year_of d" "month_of d + 1"] dim_bounds [of "year_of d + 1" 1]
  by (auto simp: cal_date_def next_day_def)

lemma next_day_least:
  "cal_date c \<Longrightarrow> cal_date d \<Longrightarrow> (next_day c \<le> d) = (c < d)"
  using dim_bounds [of "year_of d" "month_of d"]
  by (cases c; cases d) (auto simp: cal_date_def next_day_def less_eq_date_def less_date_def)

lemma next_day_greater: "cal_date c \<Longrightarrow> c < next_day c"
  by (cases c) (auto simp: cal_date_def next_day_def less_date_def)

lemma div_step:
  fixes y k :: int
  assumes k: "0 < k"
  shows "y div k = (y - 1) div k + (if y mod k = 0 then 1 else 0)"
proof -
  have y: "y = k * (y div k) + y mod k" by simp
  have r: "0 \<le> y mod k" "y mod k < k" using k by simp_all
  show ?thesis
  proof (cases "y mod k = 0")
    case True
    have "y - 1 = k * (y div k - 1) + (k - 1)"
      using y True by (simp add: algebra_simps)
    then have "(y - 1) div k = y div k - 1"
      using k int_div_pos_eq [of "y - 1" k "y div k - 1" "k - 1"] by simp
    then show ?thesis using True by simp
  next
    case False
    have "y - 1 = k * (y div k) + (y mod k - 1)"
      using y by (simp add: algebra_simps)
    then have "(y - 1) div k = y div k"
      using r False int_div_pos_eq [of "y - 1" k "y div k" "y mod k - 1"] by simp
    then show ?thesis using False by simp
  qed
qed

lemma mod_chain:
  fixes y :: int
  shows "y mod 400 = 0 \<Longrightarrow> y mod 100 = 0" and "y mod 100 = 0 \<Longrightarrow> y mod 4 = 0"
proof -
  have a: "(100::int) dvd 400" and b: "(4::int) dvd 100" by simp_all
  show "y mod 400 = 0 \<Longrightarrow> y mod 100 = 0"
    using a by (metis dvd_trans mod_eq_0_iff_dvd)
  show "y mod 100 = 0 \<Longrightarrow> y mod 4 = 0"
    using b by (metis dvd_trans mod_eq_0_iff_dvd)
qed


lemma dby_Suc: "days_before_year (y + 1) = days_before_year y + (if is_leap y then 366 else 365)"
proof -
  define a b c where "a = (y - 1) div 4" and "b = (y - 1) div 100" and "c = (y - 1) div 400"
  define p4 p100 p400 where "p4 = (y mod 4 = 0)" and "p100 = (y mod 100 = 0)"
    and "p400 = (y mod 400 = 0)"
  have e4: "y div 4 = a + (if p4 then 1 else 0)"
    using div_step [of 4 y] by (simp add: a_def p4_def)
  have e100: "y div 100 = b + (if p100 then 1 else 0)"
    using div_step [of 100 y] by (simp add: b_def p100_def)
  have e400: "y div 400 = c + (if p400 then 1 else 0)"
    using div_step [of 400 y] by (simp add: c_def p400_def)
  have imp: "p400 \<Longrightarrow> p100" "p100 \<Longrightarrow> p4"
    using mod_chain [of y] by (simp_all only: p4_def p100_def p400_def)
  have lhs: "days_before_year (y + 1) = y * 365 + y div 4 - y div 100 + y div 400"
    by (simp only: days_before_year_def add_diff_cancel_right')
  have rhs: "days_before_year y = (y - 1) * 365 + a - b + c"
    by (simp only: days_before_year_def a_def b_def c_def)
  have leap: "is_leap y = (p4 \<and> (\<not> p100 \<or> p400))"
    by (simp only: is_leap_def p4_def p100_def p400_def)
  show ?thesis
    unfolding lhs rhs leap e4 e100 e400
    using imp by (cases p4; cases p100; cases p400) (simp_all add: algebra_simps)
qed

lemma dbm_Suc:
  "1 \<le> m \<Longrightarrow> m < 12 \<Longrightarrow>
   days_before_month y (m + 1) = days_before_month y m + days_in_month y m"
proof -
  assume "1 \<le> m" "m < 12"
  then have "m = 1 \<or> m = 2 \<or> m = 3 \<or> m = 4 \<or> m = 5 \<or> m = 6 \<or> m = 7 \<or> m = 8
      \<or> m = 9 \<or> m = 10 \<or> m = 11" by arith
  then show ?thesis
    by (elim disjE) (simp_all add: days_before_month_def days_in_month_def)
qed

lemma toordinal_next_day: "cal_date d \<Longrightarrow> toordinal (next_day d) = toordinal d + 1"
proof (cases d)
  case (Date y m dd)
  assume c: "cal_date d"
  show ?thesis
  proof (cases "dd < days_in_month y m")
    case True
    then show ?thesis by (simp add: Date next_day_def toordinal_def)
  next
    case False
    then have dd: "dd = days_in_month y m" using c by (simp add: Date cal_date_def)
    show ?thesis
    proof (cases "m < 12")
      case True
      then show ?thesis
        using c dbm_Suc [of m y] by (simp add: Date dd next_day_def toordinal_def cal_date_def)
    next
      case False
      then have m: "m = 12" using c by (simp add: Date cal_date_def)
      show ?thesis
        by (simp add: Date dd m next_day_def toordinal_def dby_Suc days_before_month_def
            days_in_month_def)
    qed
  qed
qed

declare date_range.simps [simp del]

lemma set_date_range:
  "cal_date a \<Longrightarrow> set (date_range a b) = {d. cal_date d \<and> a \<le> d \<and> d \<le> b}"
proof (induction a b rule: date_range.induct)
  case (1 a b)
  show ?case
  proof (cases "a \<le> b")
    case True
    have "set (date_range (next_day a) b) = {d. cal_date d \<and> next_day a \<le> d \<and> d \<le> b}"
      using "1.IH" [OF True] "1.prems" by (simp add: cal_next_day)
    also have "\<dots> = {d. cal_date d \<and> a < d \<and> d \<le> b}"
      using "1.prems" by (auto simp: next_day_least)
    finally have "set (date_range a b) = insert a {d. cal_date d \<and> a < d \<and> d \<le> b}"
      using True by (subst date_range.simps) simp
    moreover have "insert a {d. cal_date d \<and> a < d \<and> d \<le> b} = {d. cal_date d \<and> a \<le> d \<and> d \<le> b}"
      using True "1.prems" by (auto simp: le_less)
    ultimately show ?thesis by simp
  next
    case False
    then have "{d. cal_date d \<and> a \<le> d \<and> d \<le> b} = {}"
      using order_trans by blast
    then show ?thesis using False by (subst date_range.simps) simp
  qed
qed


lemma distinct_date_range: "cal_date a \<Longrightarrow> distinct (date_range a b)"
proof (induction a b rule: date_range.induct)
  case (1 a b)
  show ?case
  proof (cases "a \<le> b")
    case True
    have "a \<notin> set (date_range (next_day a) b)"
      using "1.prems" next_day_greater [of a] by (auto simp: set_date_range cal_next_day)
    then show ?thesis
      using "1.IH" [OF True] "1.prems" True by (subst date_range.simps) (simp add: cal_next_day)
  next
    case False
    then show ?thesis by (subst date_range.simps) simp
  qed
qed

lemma length_date_range:
  "cal_date a \<Longrightarrow> cal_date b \<Longrightarrow> a \<le> b \<Longrightarrow>
   int (length (date_range a b)) = toordinal b - toordinal a + 1"
proof (induction a b rule: date_range.induct)
  case (1 a b)
  have le: "a \<le> b" by fact
  show ?case
  proof (cases "next_day a \<le> b")
    case True
    have "int (length (date_range (next_day a) b)) = toordinal b - toordinal (next_day a) + 1"
      using "1.IH" [OF le] "1.prems" True by (simp add: cal_next_day)
    then show ?thesis
      using le "1.prems" by (subst date_range.simps) (simp add: toordinal_next_day)
  next
    case False
    then have "a = b" using "1.prems" by (simp add: next_day_least)
    moreover have "date_range (next_day a) b = []"
      using False by (subst date_range.simps) simp
    ultimately show ?thesis by (subst date_range.simps) simp
  qed
qed

lemma day_tasks_add_task:
  "day_tasks (add_task idx d n) d' =
     (if d' = d then append_new n (day_tasks idx d) else day_tasks idx d')"
  by (auto simp: add_task_def day_tasks_def append_new_def Let_def split: option.splits)

lemma day_tasks_fold_add_task:
  "day_tasks (fold (\<lambda>d i. add_task i d n) ds idx) d' =
     (if d' \<in> set ds then append_new n (day_tasks idx d') else day_tasks idx d')"
proof (induction ds arbitrary: idx)
  case Nil
  show ?case by simp
next
  case (Cons d ds)
  show ?case
    by (simp add: Cons.IH day_tasks_add_task) (simp add: append_new_def)
qed

lemma expand_range_fold:
  "year_of b < 9999 \<Longrightarrow>
   expand_range a b n idx = Inr (fold (\<lambda>d i. add_task i d n) (date_range a b) idx)"
proof (induction a b n idx rule: expand_range.induct)
  case (1 cur end_date n idx)
  show ?case
  proof (cases "cur \<le> end_date")
    case True
    then have "year_of cur \<le> year_of end_date" by (auto simp: less_eq_date_def)
    then have "year_of (next_day cur) \<le> 9999"
      using "1.prems" by (auto simp: next_day_def)
    then have nx: "add_one_day cur = Inr (next_day cur)"
      by (simp add: add_one_day_def)
    show ?thesis
      using "1.IH" [OF True nx "1.prems"] True nx
      by (subst expand_range.simps, subst date_range.simps) simp
  next
    case False
    then show ?thesis
      by (subst expand_range.simps, subst date_range.simps) simp
  qed
qed

section \<open>Facts about the day index\<close>

lemma year_le: "a \<le> b \<Longrightarrow> year_of a \<le> year_of b"
  by (auto simp: less_eq_date_def)

lemma timestamp_year: "timestamp_date d \<Longrightarrow> 1677 \<le> year_of d \<and> year_of d \<le> 2262"
  using year_le [of "Date 1677 9 21" d] year_le [of d "Date 2262 4 11"]
  by (simp add: timestamp_date_def)

lemma clipped_days_outside:
  "year_of s > yr \<or> year_of e < yr \<Longrightarrow> clipped_days yr s e = {}"
proof -
  assume out: "year_of s > yr \<or> year_of e < yr"
  have "\<not> (max s (Date yr 1 1) \<le> d \<and> d \<le> min e (Date yr 12 31))" for d
  proof
    assume "max s (Date yr 1 1) \<le> d \<and> d \<le> min e (Date yr 12 31)"
    then have "s \<le> d" "d \<le> Date yr 12 31" "Date yr 1 1 \<le> d" "d \<le> e" by simp_all
    then have "year_of s \<le> year_of d" "year_of d \<le> yr" "yr \<le> year_of d" "year_of d \<le> year_of e"
      using year_le by fastforce+
    then show False using out by linarith
  qed
  then show ?thesis by (simp add: clipped_days_def)
qed

lemma index_task_ok:
  assumes s: "start_date t = Stamp s" and e: "due_date t = Stamp e"
    and ts: "timestamp_date s" and te: "timestamp_date e"
  shows "\<exists>idx'. index_task yr idx t = Inr idx' \<and>
     (\<forall>d. day_tasks idx' d =
        (if d \<in> clipped_days yr s e then append_new (task_name t) (day_tasks idx d)
         else day_tasks idx d))"
proof (cases "year_of s > yr \<or> year_of e < yr")
  case True
  then have "index_task yr idx t = Inr idx"
    by (simp add: index_task_def s e)
  then show ?thesis using clipped_days_outside [OF True] by simp
next
  case False
  then have yr: "1677 \<le> yr" "yr \<le> 2262"
    using timestamp_year [OF ts] timestamp_year [OF te] by simp_all
  have jan: "mk_date yr 1 1 = Inr (Date yr 1 1)" and dec: "mk_date yr 12 31 = Inr (Date yr 12 31)"
    using yr by (simp_all add: mk_date_def valid_date_def cal_date_def days_in_month_def)
  have cj: "cal_date (Date yr 1 1)"
    by (simp add: cal_date_def days_in_month_def)
  have cs: "cal_date s" using ts by (simp add: timestamp_date_def)
  have c: "cal_date (max s (Date yr 1 1))"
    using cj cs by (simp add: max_def)
  have "year_of (min e (Date yr 12 31)) \<le> yr"
    using year_le [of "min e (Date yr 12 31)" "Date yr 12 31"] by simp
  then have y: "year_of (min e (Date yr 12 31)) < 9999" using yr by simp
  have "index_task yr idx t =
      expand_range (max s (Date yr 1 1)) (min e (Date yr 12 31)) (task_name t) idx"
    using False by (simp add: index_task_def s e jan dec)
  then have "index_task yr idx t = Inr (fold (\<lambda>d i. add_task i d (task_name t))
      (date_range (max s (Date yr 1 1)) (min e (Date yr 12 31))) idx)"
    by (simp add: expand_range_fold [OF y])
  then show ?thesis
    by (simp add: day_tasks_fold_add_task set_date_range [OF c] clipped_days_def)
qed

lemma set_append_new: "set (append_new n ns) = insert n (set ns)"
  by (auto simp: append_new_def)

lemma index_rows_ok:
  "\<forall>t\<in>set ts. resolved_ok t \<Longrightarrow>
   \<exists>idx'. index_rows yr idx ts = Inr idx' \<and>
     (\<forall>n d. n \<in> set (day_tasks idx' d) \<longleftrightarrow>
        n \<in> set (day_tasks idx d) \<or> (\<exists>t\<in>set ts. task_name t = n \<and> d \<in> row_days yr t))"
proof (induction ts arbitrary: idx)
  case Nil
  show ?case by simp
next
  case (Cons t ts)
  from Cons.prems obtain s e where se: "start_date t = Stamp s" "due_date t = Stamp e"
      "timestamp_date s" "timestamp_date e"
    by (auto simp: resolved_ok_def)
  obtain idx1 where i1: "index_task yr idx t = Inr idx1"
    and d1: "\<And>d. day_tasks idx1 d =
        (if d \<in> clipped_days yr s e then append_new (task_name t) (day_tasks idx d)
         else day_tasks idx d)"
    using index_task_ok [OF se, of yr idx] by blast
  have rd: "row_days yr t = clipped_days yr s e"
    by (simp add: row_days_def se)
  obtain idx2 where i2: "index_rows yr idx1 ts = Inr idx2"
    and d2: "\<And>n d. n \<in> set (day_tasks idx2 d) \<longleftrightarrow>
        n \<in> set (day_tasks idx1 d) \<or> (\<exists>t\<in>set ts. task_name t = n \<and> d \<in> row_days yr t)"
    using Cons.IH [of idx1] Cons.prems by auto
  have "index_rows yr idx (t # ts) = Inr idx2"
    by (simp add: i1 i2)
  moreover have "n \<in> set (day_tasks idx2 d) \<longleftrightarrow>
        n \<in> set (day_tasks idx d) \<or> (\<exists>u\<in>set (t # ts). task_name u = n \<and> d \<in> row_days yr u)"
    for n d
    unfolding d2 d1 rd [symmetric]
    by (auto simp: set_append_new)
  ultimately show ?case by blast
qed

lemma resolve_row_fields:
  "task_name (resolve_row t) = task_name t"
  "labels (resolve_row t) = labels t"
  "bucket_name (resolve_row t) = bucket_name t"
  "completed_date (resolve_row t) = to_datetime (completed_date t)"
  "due_date (resolve_row t) =
     (if notna (to_datetime (completed_date t)) then to_datetime (completed_date t)
      else to_datetime (due_date t))"
  "start_date (resolve_row t) =
     (if notna (to_datetime (start_date t)) then to_datetime (start_date t)
      else due_date (resolve_row t))"
  by (simp_all add: resolve_row_def fill_start_def override_due_def coerce_dates_def)

lemma effective_range_spec: "effective_range t = spec_resolved_range t"
  by (cases "start_date t"; cases "due_date t"; cases "completed_date t")
    (simp_all add: effective_range_def resolve_row_fields spec_resolved_range_def
      spec_effective_start_def spec_effective_due_def spec_present_def to_datetime_def notna_def)

lemma effective_range_notna:
  "(notna (start_date (resolve_row t)) \<and> notna (due_date (resolve_row t))) =
   (effective_range t \<noteq> None)"
  by (cases "start_date t"; cases "due_date t"; cases "completed_date t")
    (simp_all add: effective_range_def resolve_row_fields to_datetime_def notna_def)

lemma dropna_resolve_frame:
  "dropna (resolve_frame tasks) = map resolve_row (filter (\<lambda>t. effective_range t \<noteq> None) tasks)"
  by (simp add: dropna_def resolve_frame_def filter_map comp_def effective_range_notna)

lemma effective_range_stamps:
  "effective_range t = Some (s, e) \<Longrightarrow>
   start_date (resolve_row t) = Stamp s \<and> due_date (resolve_row t) = Stamp e"
  by (auto simp: effective_range_def split: date_cell.splits)

lemma effective_range_timestamps:
  assumes "task_ok t" and "effective_range t = Some (s, e)"
  shows "timestamp_date s \<and> timestamp_date e"
  using assms
  by (cases "start_date t"; cases "due_date t"; cases "completed_date t")
    (simp_all add: effective_range_def resolve_row_fields to_datetime_def notna_def
      task_ok_def cell_ok_def)

lemma resolved_ok_resolve_row:
  "task_ok t \<Longrightarrow> effective_range t \<noteq> None \<Longrightarrow> resolved_ok (resolve_row t)"
  using effective_range_stamps [of t] effective_range_timestamps [of t]
  by (auto simp: resolved_ok_def)

lemma row_days_resolve_row: "row_days yr (resolve_row t) = task_days yr t"
  by (auto simp: row_days_def task_days_def effective_range_def split: date_cell.splits)

lemma task_days_effective: "d \<in> task_days yr t \<Longrightarrow> effective_range t \<noteq> None"
  by (cases "effective_range t") (auto simp: task_days_def)

lemma build_day_index_ok:
  assumes ok: "frame_ok tasks"
  shows "\<exists>idx. build_day_index tasks yr = Inr idx \<and>
     (\<forall>n d. n \<in> set (day_tasks idx d) \<longleftrightarrow>
        (\<exists>t\<in>set tasks. task_name t = n \<and> d \<in> task_days yr t))"
proof -
  let ?rows = "map resolve_row (filter (\<lambda>t. effective_range t \<noteq> None) tasks)"
  have "\<forall>r\<in>set ?rows. resolved_ok r"
    using ok by (auto simp: frame_ok_def list_all_iff resolved_ok_resolve_row)
  then obtain idx where i: "index_rows yr Map.empty ?rows = Inr idx"
    and d: "\<And>n d. n \<in> set (day_tasks idx d) \<longleftrightarrow>
        n \<in> set (day_tasks Map.empty d) \<or> (\<exists>r\<in>set ?rows. task_name r = n \<and> d \<in> row_days yr r)"
    using index_rows_ok [of ?rows yr Map.empty] by blast
  have "n \<in> set (day_tasks idx d) \<longleftrightarrow> (\<exists>t\<in>set tasks. task_name t = n \<and> d \<in> task_days yr t)"
    for n d
  proof -
    have "(\<exists>r\<in>set ?rows. task_name r = n \<and> d \<in> row_days yr r) \<longleftrightarrow>
        (\<exists>t\<in>set tasks. effective_range t \<noteq> None \<and> task_name t = n \<and> d \<in> task_days yr t)"
      by (auto simp: resolve_row_fields row_days_resolve_row)
    also have "\<dots> \<longleftrightarrow> (\<exists>t\<in>set tasks. task_name t = n \<and> d \<in> task_days yr t)"
      using task_days_effective by blast
    finally have "(\<exists>r\<in>set ?rows. task_name r = n \<and> d \<in> row_days yr r) \<longleftrightarrow>
        (\<exists>t\<in>set tasks. task_name t = n \<and> d \<in> task_days yr t)" .
    moreover have "day_tasks Map.empty d = []"
      by (simp add: day_tasks_def)
    ultimately show ?thesis
      unfolding d by simp
  qed
  then show ?thesis
    using i by (simp add: build_day_index_def dropna_resolve_frame)
qed

lemma clipped_days_inside:
  assumes "cal_date s" "cal_date e" "year_of s = yr" "year_of e = yr"
  shows "clipped_days yr s e = set (date_range s e)"
proof -
  have "Date yr 1 1 \<le> s" "e \<le> Date yr 12 31"
    using assms dim_bounds(2) [of "year_of e" "month_of e"]
    by (auto simp: less_eq_date_def cal_date_def)
  then have "max s (Date yr 1 1) = s" "min e (Date yr 12 31) = e"
    by (simp_all add: max_def min_def)
  then show ?thesis
    using assms(1) by (simp add: clipped_days_def set_date_range)
qed

lemma filter_only_effective:
  "build_day_index (filter (\<lambda>t. effective_range t \<noteq> None) tasks) yr = build_day_index tasks yr"
  by (simp add: build_day_index_def dropna_resolve_frame)

section \<open>Claims about the day index\<close>

text \<open>
  C1. For every table whose timestamps are pandas timestamps and every target year, the
  index is built, and a name stands on a day exactly when some record of that name has the
  day in its effective range clipped to the target year, from the later of its start and
  1 January to the earlier of its due date and 31 December, both included: every record
  adds its clipped range and nothing else, and a record whose clipped range is empty adds
  nothing. For a record that alone bears its name the days carrying the name are exactly
  its clipped range; when its range lies inside the target year they number
  \<^verbatim>\<open>(effectiveEnd - effectiveStart).days + 1\<close>, and exactly one when start and end are
  the same day.
\<close>

theorem day_index_clipped_ranges:
  assumes "frame_ok tasks"
  shows "\<exists>idx. build_day_index tasks yr = Inr idx \<and>
     (\<forall>n d. n \<in> set (day_tasks idx d) \<longleftrightarrow>
        (\<exists>t\<in>set tasks. task_name t = n \<and> d \<in> task_days yr t)) \<and>
     (\<forall>t\<in>set tasks. only_record tasks t \<longrightarrow>
        {d. task_name t \<in> set (day_tasks idx d)} = task_days yr t) \<and>
     (\<forall>t\<in>set tasks. \<forall>s e.
        only_record tasks t \<and> effective_range t = Some (s, e) \<and>
        year_of s = yr \<and> year_of e = yr \<and> s \<le> e \<longrightarrow>
        int (card {d. task_name t \<in> set (day_tasks idx d)}) = toordinal e - toordinal s + 1) \<and>
     (\<forall>t\<in>set tasks. \<forall>s.
        only_record tasks t \<and> effective_range t = Some (s, s) \<and> year_of s = yr \<longrightarrow>
        card {d. task_name t \<in> set (day_tasks idx d)} = 1)"
proof -
  obtain idx where i: "build_day_index tasks yr = Inr idx"
    and m: "\<And>n d. n \<in> set (day_tasks idx d) \<longleftrightarrow>
        (\<exists>t\<in>set tasks. task_name t = n \<and> d \<in> task_days yr t)"
    using build_day_index_ok [OF assms, of yr] by blast
  have own: "{d. task_name t \<in> set (day_tasks idx d)} = task_days yr t"
    if t: "t \<in> set tasks" and o: "only_record tasks t" for t
  proof -
    have "u \<in> set tasks \<Longrightarrow> task_name u = task_name t \<Longrightarrow> u = t" for u
      using o by (simp add: only_record_def list_all_iff)
    then have "(\<exists>u\<in>set tasks. task_name u = task_name t \<and> d \<in> task_days yr u) \<longleftrightarrow>
        d \<in> task_days yr t" for d
      using t by blast
    then show ?thesis by (simp add: m)
  qed
  have cnt: "int (card {d. task_name t \<in> set (day_tasks idx d)}) = toordinal e - toordinal s + 1"
    if t: "t \<in> set tasks" and o: "only_record tasks t" and r: "effective_range t = Some (s, e)"
      and y: "year_of s = yr" "year_of e = yr" and le: "s \<le> e" for t s e
  proof -
    have "task_ok t" using assms t by (simp add: frame_ok_def list_all_iff)
    then have c: "cal_date s" "cal_date e"
      using effective_range_timestamps [OF _ r] by (simp_all add: timestamp_date_def)
    have "{d. task_name t \<in> set (day_tasks idx d)} = set (date_range s e)"
      using own [OF t o] clipped_days_inside [OF c y] by (simp add: task_days_def r)
    then have "card {d. task_name t \<in> set (day_tasks idx d)} = length (date_range s e)"
      using distinct_date_range [OF c(1)] by (simp add: distinct_card)
    then show ?thesis
      using length_date_range [OF c le] by simp
  qed
  have one: "card {d. task_name t \<in> set (day_tasks idx d)} = 1"
    if "t \<in> set tasks" "only_record tasks t" "effective_range t = Some (s, s)" "year_of s = yr"
    for t s
    using cnt [of t s s] that by simp
  show ?thesis
    using i m own cnt one by blast
qed

theorem day_index_clipped_ranges_witness:
  "frame_ok example_tasks \<and>
   (\<exists>idx. build_day_index example_tasks 2024 = Inr idx \<and>
      ''Design'' \<notin> set (day_tasks idx (Date 2023 12 31)) \<and>
      ''Design'' \<in> set (day_tasks idx (Date 2024 1 1)) \<and>
      ''Design'' \<in> set (day_tasks idx (Date 2024 1 2)) \<and>
      ''Design'' \<notin> set (day_tasks idx (Date 2024 1 3)) \<and>
      card {d. ''Ship'' \<in> set (day_tasks idx d)} = 4 \<and>
      card {d. ''Review'' \<in> set (day_tasks idx d)} = 1)"
proof -
  have ok: "frame_ok example_tasks"
    by (simp add: example_tasks_def mk_task_def frame_ok_def task_ok_def cell_ok_def
        timestamp_date_def cal_date_def days_in_month_def is_leap_def less_eq_date_def)
  define design where "design = example_tasks ! 0"
  define review where "review = example_tasks ! 1"
  define ship where "ship = example_tasks ! 2"
  have names: "task_name design = ''Design''" "task_name review = ''Review''"
      "task_name ship = ''Ship''"
    by (simp_all add: design_def review_def ship_def example_tasks_def mk_task_def)
  have mem: "design \<in> set example_tasks" "review \<in> set example_tasks" "ship \<in> set example_tasks"
    by (simp_all add: design_def review_def ship_def example_tasks_def)
  have only: "only_record example_tasks design" "only_record example_tasks review"
      "only_record example_tasks ship"
    by (simp_all add: only_record_def design_def review_def ship_def example_tasks_def mk_task_def)
  have r: "effective_range design = Some (Date 2023 12 30, Date 2024 1 2)"
      "effective_range review = Some (Date 2024 3 1, Date 2024 3 1)"
      "effective_range ship = Some (Date 2024 2 27, Date 2024 3 1)"
    by (simp_all add: design_def review_def ship_def example_tasks_def mk_task_def
        effective_range_def resolve_row_fields to_datetime_def notna_def)
  have days: "task_days 2024 design =
      {d. cal_date d \<and> Date 2024 1 1 \<le> d \<and> d \<le> Date 2024 1 2}"
    by (simp add: task_days_def r clipped_days_def max_def min_def less_eq_date_def)
  have ord: "toordinal (Date 2024 3 1) - toordinal (Date 2024 2 27) + 1 = 4"
    by (simp add: toordinal_def days_before_year_def days_before_month_def is_leap_def)
  from day_index_clipped_ranges [OF ok, of 2024]
  obtain idx where all: "build_day_index example_tasks 2024 = Inr idx \<and>
     (\<forall>n d. n \<in> set (day_tasks idx d) \<longleftrightarrow>
        (\<exists>t\<in>set example_tasks. task_name t = n \<and> d \<in> task_days 2024 t)) \<and>
     (\<forall>t\<in>set example_tasks. only_record example_tasks t \<longrightarrow>
        {d. task_name t \<in> set (day_tasks idx d)} = task_days 2024 t) \<and>
     (\<forall>t\<in>set example_tasks. \<forall>s e.
        only_record example_tasks t \<and> effective_range t = Some (s, e) \<and>
        year_of s = 2024 \<and> year_of e = 2024 \<and> s \<le> e \<longrightarrow>
        int (card {d. task_name t \<in> set (day_tasks idx d)}) = toordinal e - toordinal s + 1) \<and>
     (\<forall>t\<in>set example_tasks. \<forall>s.
        only_record example_tasks t \<and> effective_range t = Some (s, s) \<and> year_of s = 2024 \<longrightarrow>
        card {d. task_name t \<in> set (day_tasks idx d)} = 1)" ..
  note i = all [THEN conjunct1]
  note own = all [THEN conjunct2, THEN conjunct2, THEN conjunct1, rule_format]
  note cnt = all [THEN conjunct2, THEN conjunct2, THEN conjunct2, THEN conjunct1, rule_format]
  note one = all [THEN conjunct2, THEN conjunct2, THEN conjunct2, THEN conjunct2, rule_format]
  have d: "{d. ''Design'' \<in> set (day_tasks idx d)} =
      {d. cal_date d \<and> Date 2024 1 1 \<le> d \<and> d \<le> Date 2024 1 2}"
    using own [OF mem(1) only(1)] by (simp only: names days)
  have d1: "''Design'' \<notin> set (day_tasks idx (Date 2023 12 31))"
  proof
    assume "''Design'' \<in> set (day_tasks idx (Date 2023 12 31))"
    then have "Date 2023 12 31 \<in> {d. ''Design'' \<in> set (day_tasks idx d)}" by simp
    then show False unfolding d by (simp add: less_eq_date_def)
  qed
  have d4: "''Design'' \<notin> set (day_tasks idx (Date 2024 1 3))"
  proof
    assume "''Design'' \<in> set (day_tasks idx (Date 2024 1 3))"
    then have "Date 2024 1 3 \<in> {d. ''Design'' \<in> set (day_tasks idx d)}" by simp
    then show False unfolding d by (simp add: less_eq_date_def)
  qed
  have "Date 2024 1 1 \<in> {d. ''Design'' \<in> set (day_tasks idx d)}"
    unfolding d by (simp add: less_eq_date_def cal_date_def days_in_month_def)
  then have d2: "''Design'' \<in> set (day_tasks idx (Date 2024 1 1))" by simp
  have "Date 2024 1 2 \<in> {d. ''Design'' \<in> set (day_tasks idx d)}"
    unfolding d by (simp add: less_eq_date_def cal_date_def days_in_month_def)
  then have d3: "''Design'' \<in> set (day_tasks idx (Date 2024 1 2))" by simp
  have "int (card {d. task_name ship \<in> set (day_tasks idx d)}) =
      toordinal (Date 2024 3 1) - toordinal (Date 2024 2 27) + 1"
    by (rule cnt [OF mem(3)]) (simp add: only r less_eq_date_def)
  then have s: "card {d. ''Ship'' \<in> set (day_tasks idx d)} = 4"
    by (simp add: names ord)
  have "card {d. task_name review \<in> set (day_tasks idx d)} = 1"
    using one [OF mem(2), of "Date 2024 3 1"] by (simp add: only r)
  then have rv: "card {d. ''Review'' \<in> set (day_tasks idx d)} = 1"
    by (simp add: names)
  show ?thesis
    using ok i d1 d2 d3 d4 s rv by (intro conjI exI [of _ idx])
qed

text \<open>
  C2. Date resolution follows a fixed order. A completed date, when present, becomes the
  effective due date; a start date that is absent or invalid becomes the due date as it is
  after that override; a record that still lacks a start or a due date is left out of the
  index without an error. The rows the code keeps and their ranges are those of the
  resolution rules as the specification words them, and the index is built for every table,
  whatever dates are missing or malformed.
\<close>

theorem resolution_order:
  assumes "frame_ok tasks"
  shows "(\<forall>t c. to_datetime (completed_date t) = Stamp c \<longrightarrow> due_date (resolve_row t) = Stamp c) \<and>
     (\<forall>t. to_datetime (completed_date t) = NaT \<longrightarrow>
        due_date (resolve_row t) = to_datetime (due_date t)) \<and>
     (\<forall>t s. to_datetime (start_date t) = Stamp s \<longrightarrow> start_date (resolve_row t) = Stamp s) \<and>
     (\<forall>t. to_datetime (start_date t) = NaT \<longrightarrow>
        start_date (resolve_row t) = due_date (resolve_row t)) \<and>
     (\<forall>t. effective_range t = spec_resolved_range t) \<and>
     dropna (resolve_frame tasks) =
       map resolve_row (filter (\<lambda>t. spec_resolved_range t \<noteq> None) tasks) \<and>
     (\<exists>idx. build_day_index tasks yr = Inr idx \<and>
        build_day_index (filter (\<lambda>t. spec_resolved_range t \<noteq> None) tasks) yr = Inr idx)"
proof -
  have a: "to_datetime (completed_date t) = Stamp c \<Longrightarrow> due_date (resolve_row t) = Stamp c"
    for t c
    by (simp add: resolve_row_fields notna_def)
  have b: "to_datetime (completed_date t) = NaT \<Longrightarrow>
      due_date (resolve_row t) = to_datetime (due_date t)" for t
    by (simp add: resolve_row_fields notna_def)
  have c: "to_datetime (start_date t) = Stamp s \<Longrightarrow> start_date (resolve_row t) = Stamp s"
    for t s
    by (simp add: resolve_row_fields(6) notna_def)
  have d: "to_datetime (start_date t) = NaT \<Longrightarrow>
      start_date (resolve_row t) = due_date (resolve_row t)" for t
    by (simp add: resolve_row_fields(6) notna_def)
  have e: "dropna (resolve_frame tasks) =
       map resolve_row (filter (\<lambda>t. spec_resolved_range t \<noteq> None) tasks)"
    using dropna_resolve_frame [of tasks] by (simp add: effective_range_spec)
  obtain idx where i: "build_day_index tasks yr = Inr idx"
    using build_day_index_ok [OF assms, of yr] by blast
  have f: "build_day_index (filter (\<lambda>t. spec_resolved_range t \<noteq> None) tasks) yr = Inr idx"
    using filter_only_effective [of tasks yr] i by (simp add: effective_range_spec)
  show ?thesis
    using a b c d e i f effective_range_spec by blast
qed

theorem resolution_order_witness:
  "frame_ok example_tasks \<and>
   due_date (resolve_row (example_tasks ! 1)) = Stamp (Date 2024 3 1) \<and>
   start_date (resolve_row (example_tasks ! 1)) = Stamp (Date 2024 3 1) \<and>
   start_date (resolve_row (example_tasks ! 3)) = NaT \<and>
   due_date (resolve_row (example_tasks ! 4)) = NaT \<and>
   dropna (resolve_frame example_tasks) = map resolve_row (take 3 example_tasks) \<and>
   (\<exists>idx. build_day_index example_tasks 2024 = Inr idx \<and>
      build_day_index (take 3 example_tasks) 2024 = Inr idx)"
proof -
  have ok: "frame_ok example_tasks"
    by (simp add: example_tasks_def mk_task_def frame_ok_def task_ok_def cell_ok_def
        timestamp_date_def cal_date_def days_in_month_def is_leap_def less_eq_date_def)
  note r = resolution_order [OF ok, of 2024]
  have cells: "to_datetime (completed_date (example_tasks ! 1)) = Stamp (Date 2024 3 1)"
      "to_datetime (start_date (example_tasks ! 1)) = NaT"
      "to_datetime (start_date (example_tasks ! 3)) = NaT"
      "to_datetime (completed_date (example_tasks ! 3)) = NaT"
      "to_datetime (due_date (example_tasks ! 3)) = NaT"
      "to_datetime (completed_date (example_tasks ! 4)) = NaT"
      "to_datetime (due_date (example_tasks ! 4)) = NaT"
    by (simp_all add: example_tasks_def mk_task_def to_datetime_def)
  have keep: "filter (\<lambda>t. spec_resolved_range t \<noteq> None) example_tasks = take 3 example_tasks"
    by (simp add: example_tasks_def mk_task_def spec_resolved_range_def spec_effective_start_def
        spec_effective_due_def spec_present_def)
  have d1: "due_date (resolve_row (example_tasks ! 1)) = Stamp (Date 2024 3 1)"
    using r [THEN conjunct1, rule_format, OF cells(1)] .
  have s1: "start_date (resolve_row (example_tasks ! 1)) = Stamp (Date 2024 3 1)"
    using r [THEN conjunct2, THEN conjunct2, THEN conjunct2, THEN conjunct1, rule_format,
        OF cells(2)] d1 by simp
  have d3: "due_date (resolve_row (example_tasks ! 3)) = NaT"
    using r [THEN conjunct2, THEN conjunct1, rule_format, OF cells(4)] cells(5) by simp
  have s3: "start_date (resolve_row (example_tasks ! 3)) = NaT"
    using r [THEN conjunct2, THEN conjunct2, THEN conjunct2, THEN conjunct1, rule_format,
        OF cells(3)] d3 by simp
  have d4: "due_date (resolve_row (example_tasks ! 4)) = NaT"
    using r [THEN conjunct2, THEN conjunct1, rule_format, OF cells(6)] cells(7) by simp
  have rest: "dropna (resolve_frame example_tasks) = map resolve_row (take 3 example_tasks) \<and>
     (\<exists>idx. build_day_index example_tasks 2024 = Inr idx \<and>
        build_day_index (take 3 example_tasks) 2024 = Inr idx)"
    using r [THEN conjunct2, THEN conjunct2, THEN conjunct2, THEN conjunct2, THEN conjunct2]
    by (simp only: keep)
  show ?thesis
    using ok d1 s1 s3 d4 rest by (intro conjI) simp_all
qed

declare weeks_of.simps [simp del] str_nat.simps [simp del] hex_nat.simps [simp del]

section \<open>Facts about escaping\<close>









section \<open>Claims about rendering\<close>

text \<open>
  C3 (the code departs from it). In a month block a day cell should carry the other-month
  marking exactly when its date lies in a month other than the block's. Line 176 compares
  the cell's month with \<^verbatim>\<open>month_num\<close>, the month asked for, not with \<^verbatim>\<open>current_month\<close>,
  the month of the block. In the single-month view the two agree and the marking is as
  claimed. In the full-year view \<^verbatim>\<open>month_num\<close> is \<^verbatim>\<open>None\<close>, so every cell of every block
  is marked other-month, also the days of the block's own month: 15 January 2024 in the
  January block, for one.
\<close>

theorem full_year_marks_every_day:
  \<open>day_class None day_date = ''day other-month'' \<and>
   (day_class (Some m) day_date = ''day other-month'') = (month_of day_date \<noteq> m) \<and>
   (\<exists>weeks. monthdatescalendar 2024 1 = Inr weeks \<and> Date 2024 1 15 \<in> set (concat weeks)) \<and>
   hd (render_day Map.empty [] Map.empty False None (Date 2024 1 15)) =
     ''    <div class="day other-month">''\<close>
proof -
  have a: "day_class None day_date = ''day other-month''" for day_date
    by (simp add: day_class_def)
  have b: "(day_class (Some m) day_date = ''day other-month'') = (month_of day_date \<noteq> m)"
    by (simp add: day_class_def Let_def)
  have "monthdatescalendar 2024 1 =
      Inr [[Date 2023 12 31, Date 2024 1 1, Date 2024 1 2, Date 2024 1 3,
       Date 2024 1 4, Date 2024 1 5, Date 2024 1 6],
      [Date 2024 1 7, Date 2024 1 8, Date 2024 1 9, Date 2024 1 10,
       Date 2024 1 11, Date 2024 1 12, Date 2024 1 13],
      [Date 2024 1 14, Date 2024 1 15, Date 2024 1 16, Date 2024 1 17,
       Date 2024 1 18, Date 2024 1 19, Date 2024 1 20],
      [Date 2024 1 21, Date 2024 1 22, Date 2024 1 23, Date 2024 1 24,
       Date 2024 1 25, Date 2024 1 26, Date 2024 1 27],
      [Date 2024 1 28, Date 2024 1 29, Date 2024 1 30, Date 2024 1 31,
       Date 2024 2 1, Date 2024 2 2, Date 2024 2 3]]"
  proof -
    have mr: "monthrange 2024 1 = Inr (0, 31)"
      by (simp add: monthrange_def weekday_def mk_date_def valid_date_def cal_date_def
          days_in_month_def toordinal_def days_before_year_def days_before_month_def)
    have t: "itermonthdays3 2024 1 =
        Inr ([(2023, 12, 31)] @ map (\<lambda>d. (2024, 1, d)) [1 .. 31] @ map (\<lambda>d. (2024, 2, d)) [1 .. 3])"
      by (simp add: itermonthdays3_def mr prevmonth_def nextmonth_def days_in_month_def
          upto_rec1)
    show ?thesis
      unfolding monthdatescalendar_def t
      by (simp add: upto_rec1 mk_date_def valid_date_def cal_date_def days_in_month_def
          is_leap_def weeks_of.simps)
  qed
  then have c: "\<exists>weeks. monthdatescalendar 2024 1 = Inr weeks \<and> Date 2024 1 15 \<in> set (concat weeks)"
    by simp
  have d: \<open>hd (render_day Map.empty [] Map.empty False None (Date 2024 1 15)) =
     ''    <div class="day other-month">''\<close>
    by (simp add: render_day_def a)
  show ?thesis
    using a b c d by simp
qed



text \<open>
  C9 (the code departs from it). With label prefixes on, the text shown for a task should be
  the first label that is not empty among the records of that name, followed by the name.
  Line 191 asks whether all labels of that name are missing and, when some are not, takes
  the first cell of the column, which can be the missing one: for two records named Audit,
  the first without a label and the second labelled \<^verbatim>\<open>Ops \<close>, the text shown is
  \<^verbatim>\<open>nanAudit\<close>.
\<close>

theorem first_label_nan_prefix:
  \<open>labeled_task_name (dropna (resolve_frame label_bug_tasks)) True ''Audit'' = ''nanAudit'' \<and>
   render_task (dropna (resolve_frame label_bug_tasks)) Map.empty True ''Audit'' =
     ''        <span class="task" title="nanAudit" style="background-color: #f0f0f0;">nanAudit</span>''\<close>
proof -
  have l: "lookup_labels (dropna (resolve_frame label_bug_tasks)) ''Audit'' = None"
    by (simp add: lookup_labels_def label_bug_tasks_def mk_task_def dropna_def resolve_frame_def
        resolve_row_fields to_datetime_def notna_def)
  have n: "labeled_task_name (dropna (resolve_frame label_bug_tasks)) True ''Audit'' = ''nanAudit''"
    by (simp add: labeled_task_name_def l truthy_def fmt_label_def)
  show ?thesis
    by (simp add: render_task_def n task_span_def escape_task_name_def replace_def)
qed



section \<open>Claims about the caller's table\<close>

lemma fst_generate:
  "fst (generate_calendar_html tasks_df no_wrap_text year task_colors prefix_label month_num) =
     map resolve_row tasks_df"
  by (simp add: generate_calendar_html_def resolve_frame_def Let_def)

text \<open>
  C7 (as stated, it fails). The claim: the engine leaves the caller's task records
  unchanged. The record Review of the example table has the due date 2024-02-28 before the
  call and 2024-03-01, its completed date, after it.
\<close>

theorem engine_rewrites_table:
  "fst (generate_calendar_html example_tasks False 2024 Map.empty False None) \<noteq> example_tasks \<and>
   due_date (example_tasks ! 1) = Stamp (Date 2024 2 28) \<and>
   due_date (fst (generate_calendar_html example_tasks False 2024 Map.empty False None) ! 1) =
     Stamp (Date 2024 3 1)"
proof -
  have a: "due_date (example_tasks ! 1) = Stamp (Date 2024 2 28)"
    by (simp add: example_tasks_def mk_task_def)
  have b: "due_date (fst (generate_calendar_html example_tasks False 2024 Map.empty False None) ! 1) =
     Stamp (Date 2024 3 1)"
    by (simp add: fst_generate example_tasks_def mk_task_def resolve_row_fields to_datetime_def
        notna_def)
  have "fst (generate_calendar_html example_tasks False 2024 Map.empty False None) \<noteq> example_tasks"
  proof
    assume "fst (generate_calendar_html example_tasks False 2024 Map.empty False None) = example_tasks"
    then show False using a b by simp
  qed
  then show ?thesis using a b by simp
qed

text \<open>
  C7, amended. The engine rewrites the three date columns of the caller's table in place:
  every date cell is coerced, a malformed one becoming empty; the due date becomes the
  completed date where one is present; a start date that is missing becomes the due date.
  It changes nothing else of the caller's table: the records, their number and order, and
  each record's task name, label and bucket stay as they were (the rows without dates are
  dropped from a local copy only), and a record with no completed date, a start date that
  is a timestamp and a due date that is a timestamp or empty is left as it was.
\<close>

theorem engine_rewrites_date_columns_only:
  "fst (generate_calendar_html tasks_df no_wrap_text year task_colors prefix_label month_num) =
     map resolve_row tasks_df \<and>
   map task_name (map resolve_row tasks_df) = map task_name tasks_df \<and>
   map labels (map resolve_row tasks_df) = map labels tasks_df \<and>
   map bucket_name (map resolve_row tasks_df) = map bucket_name tasks_df \<and>
   map completed_date (map resolve_row tasks_df) = map (to_datetime \<circ> completed_date) tasks_df \<and>
   (\<forall>t\<in>set tasks_df.
      due_date (resolve_row t) =
        (if to_datetime (completed_date t) \<noteq> NaT then to_datetime (completed_date t)
         else to_datetime (due_date t)) \<and>
      start_date (resolve_row t) =
        (if to_datetime (start_date t) \<noteq> NaT then to_datetime (start_date t)
         else due_date (resolve_row t))) \<and>
   (\<forall>t\<in>set tasks_df.
      completed_date t = NaT \<and> (\<exists>s. start_date t = Stamp s) \<and> to_datetime (due_date t) = due_date t
        \<longrightarrow> resolve_row t = t)"
proof -
  have same: "resolve_row t = t"
    if "completed_date t = NaT \<and> (\<exists>s. start_date t = Stamp s) \<and> to_datetime (due_date t) = due_date t"
    for t
    using that
    by (auto simp: resolve_row_def fill_start_def override_due_def coerce_dates_def notna_def
        to_datetime_def)
  show ?thesis
    using same by (simp add: fst_generate resolve_row_fields notna_def comp_def)
qed

theorem engine_rewrites_date_columns_only_witness:
  "length (fst (generate_calendar_html example_tasks True 2024 Map.empty False (Some 3))) = 5 \<and>
   map task_name (fst (generate_calendar_html example_tasks True 2024 Map.empty False (Some 3))) =
     [''Design'', ''Review'', ''Ship'', ''Idea'', ''Plan''] \<and>
   resolve_row (example_tasks ! 0) = example_tasks ! 0 \<and>
   start_date (resolve_row (example_tasks ! 1)) = Stamp (Date 2024 3 1) \<and>
   completed_date (resolve_row (example_tasks ! 2)) = NaT"
proof -
  note r = engine_rewrites_date_columns_only
    [of example_tasks True 2024 Map.empty False "Some 3"]
  have m: "example_tasks ! 0 \<in> set example_tasks" "example_tasks ! 1 \<in> set example_tasks"
    by (simp_all add: example_tasks_def)
  have names: "map task_name example_tasks = [''Design'', ''Review'', ''Ship'', ''Idea'', ''Plan'']"
    by (simp add: example_tasks_def mk_task_def)
  have len: "length example_tasks = 5"
    by (simp add: example_tasks_def)
  have a: "length (fst (generate_calendar_html example_tasks True 2024 Map.empty False (Some 3))) = 5"
    using r [THEN conjunct1] len by simp
  have b: "map task_name (fst (generate_calendar_html example_tasks True 2024 Map.empty False (Some 3))) =
     [''Design'', ''Review'', ''Ship'', ''Idea'', ''Plan'']"
    using r [THEN conjunct1] r [THEN conjunct2, THEN conjunct1] names by simp
  have c: "resolve_row (example_tasks ! 0) = example_tasks ! 0"
    using r [THEN conjunct2, THEN conjunct2, THEN conjunct2, THEN conjunct2, THEN conjunct2,
        THEN conjunct2, rule_format, OF m(1)]
    by (simp add: example_tasks_def mk_task_def to_datetime_def)
  have "start_date (resolve_row (example_tasks ! 1)) =
        (if to_datetime (start_date (example_tasks ! 1)) \<noteq> NaT
           then to_datetime (start_date (example_tasks ! 1))
         else due_date (resolve_row (example_tasks ! 1)))"
      and "due_date (resolve_row (example_tasks ! 1)) =
        (if to_datetime (completed_date (example_tasks ! 1)) \<noteq> NaT
           then to_datetime (completed_date (example_tasks ! 1))
         else to_datetime (due_date (example_tasks ! 1)))"
    using r [THEN conjunct2, THEN conjunct2, THEN conjunct2, THEN conjunct2, THEN conjunct2,
        THEN conjunct1, rule_format, OF m(2)] by simp_all
  then have d: "start_date (resolve_row (example_tasks ! 1)) = Stamp (Date 2024 3 1)"
    by (simp add: example_tasks_def mk_task_def to_datetime_def)
  have "map completed_date (map resolve_row example_tasks) ! 2 =
      map (to_datetime \<circ> completed_date) example_tasks ! 2"
    by (rule arg_cong [where f = "\<lambda>xs. xs ! 2",
          OF r [THEN conjunct2, THEN conjunct2, THEN conjunct2, THEN conjunct2, THEN conjunct1]])
  then have e: "completed_date (resolve_row (example_tasks ! 2)) = NaT"
    by (simp add: len) (simp add: example_tasks_def mk_task_def to_datetime_def)
  show ?thesis
    using a b c d e by simp
qed

section \<open>Facts about the color mapping\<close>

lemma unique_tasks_props:
  "sorted (unique_tasks tasks_df)" "distinct (unique_tasks tasks_df)"
  "set (unique_tasks tasks_df) = task_name ` set tasks_df"
  by (simp_all add: unique_tasks_def unique_def)

lemma fold_colors_other:
  "n \<notin> snd ` set xs \<Longrightarrow>
   fold (\<lambda>(i, name) m. m(name \<mapsto> f i name)) xs m0 n = m0 n"
  by (induction xs arbitrary: m0) (auto split: prod.splits)

lemma fold_colors_at:
  "distinct (map snd xs) \<Longrightarrow> (i, n) \<in> set xs \<Longrightarrow>
   fold (\<lambda>(i, name) m. m(name \<mapsto> f i name)) xs m0 n = Some (f i n)"
proof (induction xs arbitrary: m0)
  case Nil
  then show ?case by simp
next
  case (Cons x xs)
  show ?case
  proof (cases "x = (i, n)")
    case True
    then have "n \<notin> snd ` set xs" using Cons.prems(1) by force
    then have "fold (\<lambda>(i, name) m. m(name \<mapsto> f i name)) xs (m0(n \<mapsto> f i n)) n =
        (m0(n \<mapsto> f i n)) n"
      by (rule fold_colors_other)
    then have "fold (\<lambda>(i, name) m. m(name \<mapsto> f i name)) xs (m0(n \<mapsto> f i n)) n = Some (f i n)"
      by simp
    then show ?thesis using True by (simp del: fun_upd_apply)
  next
    case False
    then show ?thesis using Cons by (auto split: prod.splits)
  qed
qed

lemma fold_colors_dom:
  "dom (fold (\<lambda>(i, name) m. m(name \<mapsto> f i name)) xs m0) = dom m0 \<union> snd ` set xs"
  by (induction xs arbitrary: m0) (auto split: prod.splits)

lemma assign_colors_at:
  assumes "i < length (unique_tasks tasks_df)"
  shows "assign_colors md5 cbl cbb alt l s tasks_df (unique_tasks tasks_df ! i) =
     Some (hex_color (hls_to_rgb
       (task_hue md5 cbl cbb alt tasks_df i (unique_tasks tasks_df ! i)) l s))"
proof -
  have d: "distinct (map snd (enumerate 0 (unique_tasks tasks_df)))"
    by (simp add: unique_tasks_props)
  have m: "(i, unique_tasks tasks_df ! i) \<in> set (enumerate 0 (unique_tasks tasks_df))"
    using assms by (simp add: in_set_enumerate_eq)
  show ?thesis
    unfolding assign_colors_def
    by (rule fold_colors_at [OF d m])
qed

lemma snd_set_enumerate: "snd ` set (enumerate k ys) = set ys"
  by (metis list.set_map map_snd_enumerate)

lemma dom_assign_colors:
  "dom (assign_colors md5 cbl cbb alt l s tasks_df) = task_name ` set tasks_df"
  by (simp add: assign_colors_def fold_colors_dom unique_tasks_props snd_set_enumerate)

lemma matching_rows_nonempty:
  "name \<in> task_name ` set tasks_df \<Longrightarrow> matching_rows tasks_df name \<noteq> []"
  by (auto simp: matching_rows_def filter_empty_conv)







section \<open>Claims about the colors\<close>

text \<open>
  C5. Let \<open>name\<close> be the task name at index \<open>i\<close>, counted from 0, of the sorted list of
  distinct task names, and \<open>row\<close> the first record of that name. With color-by-label and
  alternate colors set, a task whose label is present has the hue
  \<open>(29 * i mod 360) / 360\<close>. With color-by-label set, color-by-bucket and alternate colors
  not set, it has the hue \<open>(md5 label mod 360) / 360\<close>. A task on the fallback path, where
  no grouping flag is set or the grouping attribute is missing, has the hue
  \<open>(md5 name mod 360) / 360\<close>, whether alternate colors are set or not. The color assigned
  to the name is the color code of that hue.
\<close>

theorem hue_policy:
  assumes "i < length (unique_tasks tasks_df)" and "unique_tasks tasks_df ! i = name"
  shows "sorted (unique_tasks tasks_df) \<and> distinct (unique_tasks tasks_df) \<and>
     set (unique_tasks tasks_df) = task_name ` set tasks_df \<and>
     (\<exists>row rest. matching_rows tasks_df name = row # rest \<and>
        (color_by_label \<and> alternate_colors \<and> labels row \<noteq> None \<longrightarrow>
           task_hue md5 color_by_label color_by_bucket alternate_colors tasks_df i name =
             real_of_int ((29 * int i) mod 360) / 360) \<and>
        (\<forall>l. color_by_label \<and> \<not> color_by_bucket \<and> \<not> alternate_colors \<and> labels row = Some l \<longrightarrow>
           task_hue md5 color_by_label color_by_bucket alternate_colors tasks_df i name =
             real (md5 l mod 360) / 360) \<and>
        ((color_by_label \<longrightarrow> labels row = None) \<and> (color_by_bucket \<longrightarrow> bucket_name row = None) \<longrightarrow>
           task_hue md5 color_by_label color_by_bucket alternate_colors tasks_df i name =
             real (md5 name mod 360) / 360)) \<and>
     assign_colors md5 color_by_label color_by_bucket alternate_colors lightness saturation
         tasks_df name =
       Some (hex_color (hls_to_rgb
         (task_hue md5 color_by_label color_by_bucket alternate_colors tasks_df i name)
         lightness saturation))"
proof -
  have "name \<in> set (unique_tasks tasks_df)"
    using assms nth_mem by blast
  then have "matching_rows tasks_df name \<noteq> []"
    by (simp add: unique_tasks_props matching_rows_nonempty)
  then obtain row rest where r: "matching_rows tasks_df name = row # rest"
    by (cases "matching_rows tasks_df name") auto
  have a: "task_hue md5 color_by_label color_by_bucket alternate_colors tasks_df i name =
             real_of_int ((29 * int i) mod 360) / 360"
    if "color_by_label \<and> alternate_colors \<and> labels row \<noteq> None"
    using that
    by (cases "labels row"; cases "bucket_name row")
      (auto simp: task_hue_def group_hue_def r HUE_STEP_def Let_def)
  have b: "task_hue md5 color_by_label color_by_bucket alternate_colors tasks_df i name =
             real (md5 l mod 360) / 360"
    if "color_by_label \<and> \<not> color_by_bucket \<and> \<not> alternate_colors \<and> labels row = Some l" for l
    using that by (simp add: task_hue_def group_hue_def r Let_def)
  have c: "task_hue md5 color_by_label color_by_bucket alternate_colors tasks_df i name =
             real (md5 name mod 360) / 360"
    if "(color_by_label \<longrightarrow> labels row = None) \<and> (color_by_bucket \<longrightarrow> bucket_name row = None)"
    using that by (simp add: task_hue_def group_hue_def r Let_def)
  have d: "assign_colors md5 color_by_label color_by_bucket alternate_colors lightness saturation
         tasks_df name =
       Some (hex_color (hls_to_rgb
         (task_hue md5 color_by_label color_by_bucket alternate_colors tasks_df i name)
         lightness saturation))"
    using assign_colors_at [OF assms(1)] assms(2) by simp
  show ?thesis
    using r a b c d unique_tasks_props [of tasks_df] by blast
qed

theorem hue_policy_witness:
  "(3::nat) < length (unique_tasks example_tasks) \<and>
   unique_tasks example_tasks ! 3 = ''Review'' \<and>
   unique_tasks example_tasks ! 4 = ''Ship'' \<and>
   task_hue length True False True example_tasks 3 ''Review'' = 87 / 360 \<and>
   task_hue length True False False example_tasks 3 ''Review'' = 3 / 360 \<and>
   task_hue length True False True example_tasks 4 ''Ship'' = 4 / 360 \<and>
   task_hue length False False True example_tasks 3 ''Review'' = 6 / 360"
proof -
  have u: "unique_tasks example_tasks = [''Design'', ''Idea'', ''Plan'', ''Review'', ''Ship'']"
    by (simp add: unique_tasks_def unique_def example_tasks_def mk_task_def)
  have i3: "3 < length (unique_tasks example_tasks)" and i4: "4 < length (unique_tasks example_tasks)"
    and n3: "unique_tasks example_tasks ! 3 = ''Review''"
    and n4: "unique_tasks example_tasks ! 4 = ''Ship''"
    by (simp_all add: u)
  have mr: "matching_rows example_tasks ''Review'' = [example_tasks ! 1]"
    and ms: "matching_rows example_tasks ''Ship'' = [example_tasks ! 2]"
    by (simp_all add: matching_rows_def example_tasks_def mk_task_def)
  have lr: "labels (example_tasks ! 1) = Some ''Eng''" and ls: "labels (example_tasks ! 2) = None"
    by (simp_all add: example_tasks_def mk_task_def)
  have a: "task_hue length True False True example_tasks 3 ''Review'' = 87 / 360"
  proof -
    from hue_policy [OF i3 n3, of True True length False 0 0]
    obtain row rest where r: "matching_rows example_tasks ''Review'' = row # rest"
      and h: "True \<and> True \<and> labels row \<noteq> None \<longrightarrow>
         task_hue length True False True example_tasks 3 ''Review'' =
           real_of_int ((29 * int 3) mod 360) / 360"
      by (elim exE conjE)
    have "row = example_tasks ! 1" using r mr by simp
    then show ?thesis using h lr by simp
  qed
  have b: "task_hue length True False False example_tasks 3 ''Review'' = 3 / 360"
  proof -
    from hue_policy [OF i3 n3, of True False length False 0 0]
    obtain row rest where r: "matching_rows example_tasks ''Review'' = row # rest"
      and h: "\<forall>l. True \<and> \<not> False \<and> \<not> False \<and> labels row = Some l \<longrightarrow>
         task_hue length True False False example_tasks 3 ''Review'' = real (length l mod 360) / 360"
      by (elim exE conjE)
    have "row = example_tasks ! 1" using r mr by simp
    then show ?thesis using h [rule_format, of "''Eng''"] lr by simp
  qed
  have c: "task_hue length True False True example_tasks 4 ''Ship'' = 4 / 360"
  proof -
    from hue_policy [OF i4 n4, of True True length False 0 0]
    obtain row rest where r: "matching_rows example_tasks ''Ship'' = row # rest"
      and h: "(True \<longrightarrow> labels row = None) \<and> (False \<longrightarrow> bucket_name row = None) \<longrightarrow>
         task_hue length True False True example_tasks 4 ''Ship'' =
           real (length ''Ship'' mod 360) / 360"
      by (elim exE conjE)
    have "row = example_tasks ! 2" using r ms by simp
    then show ?thesis using h ls by simp
  qed
  have d: "task_hue length False False True example_tasks 3 ''Review'' = 6 / 360"
  proof -
    from hue_policy [OF i3 n3, of False True length False 0 0]
    obtain row rest where r: "matching_rows example_tasks ''Review'' = row # rest"
      and h: "(False \<longrightarrow> labels row = None) \<and> (False \<longrightarrow> bucket_name row = None) \<longrightarrow>
         task_hue length False False True example_tasks 3 ''Review'' =
           real (length ''Review'' mod 360) / 360"
      by (elim exE conjE)
    show ?thesis using h by simp
  qed
  show ?thesis
    using i3 n3 n4 a b c d by simp
qed




text \<open>
  C8. For every table and every configuration, every task name that stands on some day of
  the day index has an entry in the color mapping built from the same table, by the loop
  of main.py and gui.py with any settings: the renderer's lookup of its color finds it, and
  the span carries that color.
\<close>

theorem colors_cover_day_index:
  assumes "frame_ok tasks_df"
  shows "\<exists>idx. build_day_index tasks_df year = Inr idx \<and>
     (\<forall>d. \<forall>n\<in>set (day_tasks idx d).
        (\<exists>c. assign_colors md5 cbl cbb alt l s tasks_df n = Some c) \<and>
        (\<exists>c. main_task_colors md5 cbl cbb alt l s tasks_df n = Some c \<and>
             render_task rows (main_task_colors md5 cbl cbb alt l s tasks_df) prefix_label n =
               task_span (escape_task_name (labeled_task_name rows prefix_label n)) c))"
proof -
  obtain idx where i: "build_day_index tasks_df year = Inr idx"
    and m: "\<And>n d. n \<in> set (day_tasks idx d) \<longleftrightarrow>
        (\<exists>t\<in>set tasks_df. task_name t = n \<and> d \<in> task_days year t)"
    using build_day_index_ok [OF assms, of year] by blast
  have "(\<exists>c. assign_colors md5 cbl cbb alt l s tasks_df n = Some c) \<and>
        (\<exists>c. main_task_colors md5 cbl cbb alt l s tasks_df n = Some c \<and>
             render_task rows (main_task_colors md5 cbl cbb alt l s tasks_df) prefix_label n =
               task_span (escape_task_name (labeled_task_name rows prefix_label n)) c)"
    if "n \<in> set (day_tasks idx d)" for n d
  proof -
    have "\<exists>t\<in>set tasks_df. task_name t = n \<and> d \<in> task_days year t"
      using that by (simp only: m)
    then have n: "n \<in> task_name ` set tasks_df"
      by auto
    then have "n \<in> dom (assign_colors md5 cbl cbb alt l s tasks_df)"
      by (simp only: dom_assign_colors)
    moreover have "n \<in> dom (main_task_colors md5 cbl cbb alt l s tasks_df)"
      using n by (simp only: main_task_colors_def Let_def dom_assign_colors)
    ultimately obtain c c' where c: "assign_colors md5 cbl cbb alt l s tasks_df n = Some c"
      and c': "main_task_colors md5 cbl cbb alt l s tasks_df n = Some c'"
      by blast
    have "render_task rows (main_task_colors md5 cbl cbb alt l s tasks_df) prefix_label n =
        task_span (escape_task_name (labeled_task_name rows prefix_label n)) c'"
      by (simp add: render_task_def c')
    then show ?thesis using c c' by blast
  qed
  then show ?thesis using i by blast
qed

theorem colors_cover_day_index_witness:
  "frame_ok example_tasks \<and>
   (\<exists>idx. build_day_index example_tasks 2024 = Inr idx \<and>
      ''Ship'' \<in> set (day_tasks idx (Date 2024 2 29)) \<and>
      (\<exists>c. main_task_colors length True False False (17 / 20) (7 / 10) example_tasks ''Ship'' =
         Some c))"
proof -
  have ok: "frame_ok example_tasks"
    by (simp add: example_tasks_def mk_task_def frame_ok_def task_ok_def cell_ok_def
        timestamp_date_def cal_date_def days_in_month_def is_leap_def less_eq_date_def)
  from colors_cover_day_index [OF ok, of 2024 length True False False "17 / 20" "7 / 10" "[]" False]
  obtain idx where i: "build_day_index example_tasks 2024 = Inr idx"
    and c: "\<forall>d. \<forall>n\<in>set (day_tasks idx d).
        (\<exists>c. assign_colors length True False False (17 / 20) (7 / 10) example_tasks n = Some c) \<and>
        (\<exists>c. main_task_colors length True False False (17 / 20) (7 / 10) example_tasks n = Some c \<and>
             render_task [] (main_task_colors length True False False (17 / 20) (7 / 10) example_tasks)
               False n =
               task_span (escape_task_name (labeled_task_name [] False n)) c)"
    by (elim exE conjE)
  obtain idx' where i': "build_day_index example_tasks 2024 = Inr idx'"
    and m: "\<And>n d. n \<in> set (day_tasks idx' d) \<longleftrightarrow>
        (\<exists>t\<in>set example_tasks. task_name t = n \<and> d \<in> task_days 2024 t)"
    using build_day_index_ok [OF ok, of 2024] by blast
  have same: "idx' = idx" using i i' by simp
  have "example_tasks ! 2 \<in> set example_tasks" "task_name (example_tasks ! 2) = ''Ship''"
      "Date 2024 2 29 \<in> task_days 2024 (example_tasks ! 2)"
    by (simp_all add: example_tasks_def mk_task_def task_days_def effective_range_def
        resolve_row_fields to_datetime_def notna_def clipped_days_def max_def min_def
        less_eq_date_def cal_date_def days_in_month_def is_leap_def)
  then have s: "''Ship'' \<in> set (day_tasks idx (Date 2024 2 29))"
    using m same by blast
  then have "\<exists>c. main_task_colors length True False False (17 / 20) (7 / 10) example_tasks ''Ship'' =
         Some c"
    using c by blast
  then show ?thesis using ok i s by blast
qed

end
